theory Spec2Isabelle
  imports Main "HOL-Library.Word"
begin

section \<open>Data model of the session controller (src/js/app.js)\<close>

text \<open>
  The controller is the class \<open>App\<close> of \<open>src/js/app.js\<close>; the terminal wrapper
  \<open>TerminalManager\<close> and the directory browser \<open>FileManager\<close> are the two classes it
  drives. Each JavaScript object becomes a record, each method a function that takes
  the application state and returns the new one.

  The value of \<open>element.style.display\<close>: never assigned (\<open>Unset\<close>), \<open>'none'\<close>,
  \<open>'block'\<close> or \<open>'flex'\<close>.
\<close>

datatype display = Unset | DisplayNone | Block | Flex

type_synonym bytes = "8 word list"

text \<open>The outcome of an awaited promise: the value it resolves to, or the reason it rejects with.\<close>

datatype 'a response = Resolved 'a | Rejected string

text \<open>
  \<open>session.fileManagerState\<close>, the object that \<open>FileManager.getState\<close> returns.
  \<open>addSession\<close> creates it without the property \<open>historyIndex\<close>, which is the value
  \<open>None\<close> here.
\<close>

record FmState =
  path :: string
  history :: "string list"
  historyIndex :: "int option"

text \<open>
  The \<open>div\<close> that \<open>addSession\<close> creates for a terminal. \<open>mounted\<close> says whether it
  was appended to \<open>#terminals-container\<close> (only when the document has that element).
\<close>

record Container =
  el_id :: string
  style_display :: display
  mounted :: bool

text \<open>
  The fields of \<open>TerminalManager\<close>. The xterm objects are external: a field records
  only whether it holds an object (\<open>True\<close>) or \<open>null\<close> (\<open>False\<close>).
\<close>

record TerminalManager =
  terminal :: bool
  fitAddon :: bool
  tm_sessionId :: "string option"
  resizeObserver :: bool

record Session =
  sess_id :: string
  sess_name :: string
  terminalManager :: TerminalManager
  container :: Container
  fileManagerState :: FmState

record Connection =
  conn_id :: string
  conn_name :: string
  conn_host :: string

text \<open>What \<open>#file-list\<close> shows.\<close>

datatype file_list_view = InitialView | Spinner | Listing | ErrorNotice | NotConnected

record FileManager =
  currentPath :: string
  fm_history :: "string list"
  fm_historyIndex :: int
  files :: "string list"
  file_list :: file_list_view
  sftp_path_display :: string

text \<open>
  The part of the document the controller writes to. \<open>index.html\<close> is not among the
  sources, so an element that the code looks up and tests before use
  (\<open>if (placeholder) ...\<close>) is optional here: \<open>None\<close> is a document without it.
  \<open>status_bar\<close> is the pair of the status dot's class and the status text that
  \<open>setStatus\<close> writes. \<open>tabs_container\<close> holds one entry per rendered tab: the title
  and whether the tab carries the class \<open>active\<close>.
\<close>

record Document =
  placeholder :: "display option"
  terminals_container :: "display option"
  btn_disconnect_disabled :: "bool option"
  tabs_container :: "(string \<times> bool) list option"
  status_bar :: "(string \<times> string) option"
  connection_modal :: display

text \<open>
  Calls that leave the controller: requests to the backend (\<open>invoke\<close>), calls on the
  xterm objects of a \<open>TerminalManager\<close> (tagged with that manager's \<open>sessionId\<close>
  field), the removal of an element from the document, and console output. The state
  keeps them in the order in which the code starts them. A request that an \<open>async\<close>
  function sends after its first \<open>await\<close> (the dynamic import of the bridge) is recorded
  where the function is called: \<open>Invoke_sftp_list p\<close> stands for a \<open>loadDirectory(p)\<close>
  that has passed its guard and goes on to fetch the listing of \<open>p\<close>.
\<close>

datatype call =
    Invoke_ssh_connect string
  | Invoke_ssh_disconnect string
  | Invoke_sftp_get_home string
  | Invoke_sftp_list string
  | Terminal_write "string option" bytes
  | Terminal_focus "string option"
  | Terminal_dispose "string option"
  | FitAddon_fit "string option"
  | ResizeObserver_disconnect "string option"
  | Element_remove string
  | Console_error string
  | Console_warn string

record App =
  sessions :: "Session list"
  currentSessionId :: "string option"
  currentConnectionId :: "string option"
  connections :: "Connection list"
  fileManager :: FileManager
  document :: Document
  calls :: "call list"


section \<open>Array helpers\<close>

text \<open>
  \<open>this.sessions.find(s => s.id === k)\<close>, where \<open>k\<close> is a string or \<open>null\<close>
  (\<open>None\<close>): the first record with that id.
\<close>

definition find_session :: "string option \<Rightarrow> Session list \<Rightarrow> Session option" where
  "find_session k xs = List.find (\<lambda>s. Some (sess_id s) = k) xs"

text \<open>\<open>this.sessions.findIndex(s => s.id === sessionId)\<close>: the first index, or \<open>-1\<close>.\<close>

fun findIndex :: "Session list \<Rightarrow> string \<Rightarrow> int" where
  "findIndex [] k = -1"
| "findIndex (s # xs) k =
     (if sess_id s = k then 0
      else (let i = findIndex xs k in if i = -1 then -1 else i + 1))"

text \<open>
  \<open>find\<close> returns a reference into the array, and the code assigns to fields of the
  record found: the first record with the id is replaced.
\<close>

fun update_session :: "string option \<Rightarrow> (Session \<Rightarrow> Session) \<Rightarrow> Session list \<Rightarrow> Session list" where
  "update_session k f [] = []"
| "update_session k f (s # xs) =
     (if Some (sess_id s) = k then f s # xs else s # update_session k f xs)"

text \<open>\<open>xs.splice(i, 1)\<close>.\<close>

definition splice1 :: "nat \<Rightarrow> 'a list \<Rightarrow> 'a list" where
  "splice1 i xs = take i xs @ drop (Suc i) xs"


section \<open>TerminalManager (src/js/titlebar.js, lines 31-164)\<close>

text \<open>
  \<open>init\<close> creates the xterm objects, opens the terminal in the container and focuses it.
  The fit it schedules with \<open>setTimeout\<close> runs later and is not part of the call.
\<close>

definition init :: "string \<Rightarrow> call list \<times> TerminalManager" where
  "init sessionId =
     ([Terminal_focus (Some sessionId)],
      \<lparr>terminal = True, fitAddon = True, tm_sessionId = Some sessionId, resizeObserver = True\<rparr>)"

definition writeData :: "TerminalManager \<Rightarrow> bytes \<Rightarrow> call list" where
  "writeData tm data = (if terminal tm then [Terminal_write (tm_sessionId tm) data] else [])"

definition fit :: "TerminalManager \<Rightarrow> call list" where
  "fit tm = (if fitAddon tm then [FitAddon_fit (tm_sessionId tm)] else [])"

definition destroy :: "TerminalManager \<Rightarrow> call list \<times> TerminalManager" where
  "destroy tm =
     ((if resizeObserver tm then [ResizeObserver_disconnect (tm_sessionId tm)] else []) @
      (if terminal tm then [Terminal_dispose (tm_sessionId tm)] else []),
      \<lparr>terminal = False, fitAddon = False, tm_sessionId = None, resizeObserver = False\<rparr>)"


section \<open>FileManager (src/js/app.js, lines 505-1093)\<close>

definition getState :: "FileManager \<Rightarrow> FmState" where
  "getState fm =
     \<lparr>path = currentPath fm, history = fm_history fm, historyIndex = Some (fm_historyIndex fm)\<rparr>"

text \<open>
  \<open>loadDirectory(path)\<close> up to its request: it returns at once when
  \<open>app.currentSessionId\<close> is falsy (\<open>null\<close> or the empty string), otherwise it shows
  the spinner and asks the backend for the listing of \<open>path\<close>. The session id of the
  request is read from \<open>app.currentSessionId\<close> when the request is sent, so the call
  records the path only.
\<close>

definition loadDirectory :: "string \<Rightarrow> App \<Rightarrow> App" where
  "loadDirectory p a =
     (if currentSessionId a = None \<or> currentSessionId a = Some [] then a
      else a\<lparr>fileManager := (fileManager a)\<lparr>file_list := Spinner\<rparr>,
             calls := calls a @ [Invoke_sftp_list p]\<rparr>)"

text \<open>
  The rest of \<open>loadDirectory(path)\<close>, when the backend has answered: the listing is
  stored and \<open>currentPath\<close> becomes \<open>path\<close>, or the error notice is shown.
\<close>

definition loadDirectory_resume :: "string \<Rightarrow> string list response \<Rightarrow> App \<Rightarrow> App" where
  "loadDirectory_resume p r a =
     (case r of
        Resolved listing \<Rightarrow>
          a\<lparr>fileManager := (fileManager a)
               \<lparr>files := listing, currentPath := p, sftp_path_display := p, file_list := Listing\<rparr>\<rparr>
      | Rejected e \<Rightarrow> a\<lparr>fileManager := (fileManager a)\<lparr>file_list := ErrorNotice\<rparr>\<rparr>)"

text \<open>
  \<open>setState(state, sessionId)\<close>. \<open>state.path || '/'\<close> replaces an empty path by
  \<open>'/'\<close>; a \<open>historyIndex\<close> that is not a number becomes \<open>-1\<close>. Every
  \<open>fileManagerState\<close> is an object, so the test \<open>if (!state)\<close> never returns.
\<close>

definition setState :: "FmState \<Rightarrow> string \<Rightarrow> App \<Rightarrow> App" where
  "setState state sessionId a =
     (let a1 = a\<lparr>fileManager := (fileManager a)
                 \<lparr>currentPath := (if path state = [] then ''/'' else path state),
                  fm_history := history state,
                  fm_historyIndex := (case historyIndex state of Some n \<Rightarrow> n | None \<Rightarrow> -1)\<rparr>\<rparr>
      in if currentSessionId a1 = Some sessionId
         then loadDirectory (currentPath (fileManager a1)) a1
         else a1)"

definition clear :: "App \<Rightarrow> App" where
  "clear a =
     a\<lparr>fileManager := (fileManager a)
         \<lparr>files := [], currentPath := ''/'', sftp_path_display := ''/'', file_list := NotConnected\<rparr>\<rparr>"


section \<open>App: status bar and tabs\<close>

text \<open>
  \<open>setStatus(status, message)\<close>, lines 198-214, writes the class of the status dot and
  the status text, through \<open>#status-dot\<close> and \<open>#status-text\<close> or else through the
  older selectors. Both routes are the one cell \<open>status_bar\<close> here.
\<close>

definition setStatus :: "string \<Rightarrow> string \<Rightarrow> App \<Rightarrow> App" where
  "setStatus status message a =
     a\<lparr>document := (document a)
         \<lparr>status_bar := map_option (\<lambda>_. (''status-dot '' @ status, message)) (status_bar (document a))\<rparr>\<rparr>"

text \<open>
  \<open>updateTabsUI\<close> returns at once when the document has no \<open>#tabs-container\<close>;
  otherwise it renders one tab per session and toggles the placeholder against the
  terminals container.
\<close>

definition updateTabsUI :: "App \<Rightarrow> App" where
  "updateTabsUI a =
     (case tabs_container (document a) of
        None \<Rightarrow> a
      | Some _ \<Rightarrow>
          a\<lparr>document := (document a)
              \<lparr>tabs_container :=
                 Some (map (\<lambda>s. (sess_name s, Some (sess_id s) = currentSessionId a)) (sessions a)),
               placeholder :=
                 map_option (\<lambda>_. if sessions a = [] then Flex else DisplayNone)
                   (placeholder (document a)),
               terminals_container :=
                 map_option (\<lambda>_. if sessions a = [] then DisplayNone else Block)
                   (terminals_container (document a))\<rparr>\<rparr>)"


section \<open>App: session management\<close>

text \<open>
  \<open>switchSession(sessionId)\<close>, lines 310-339. \<open>oldSession\<close> and \<open>newSession\<close> are
  references: when both name the same record, the state saved into \<open>oldSession\<close> is
  the state read from \<open>newSession\<close> afterwards, so \<open>newSession\<close> is looked up again after
  the save.
\<close>

definition save_old_session :: "App \<Rightarrow> App" where
  "save_old_session a =
     (case find_session (currentSessionId a) (sessions a) of
        None \<Rightarrow> a
      | Some _ \<Rightarrow>
          a\<lparr>sessions :=
              update_session (currentSessionId a)
                (\<lambda>s. s\<lparr>container := (container s)\<lparr>style_display := DisplayNone\<rparr>,
                        fileManagerState := getState (fileManager a)\<rparr>)
                (sessions a)\<rparr>)"

definition focus_terminal :: "Session \<Rightarrow> App \<Rightarrow> App" where
  "focus_terminal s a =
     (if terminal (terminalManager s)
      then a\<lparr>calls := calls a @ [Terminal_focus (tm_sessionId (terminalManager s))]
                              @ fit (terminalManager s)\<rparr>
      else a)"

definition switchSession :: "string \<Rightarrow> App \<Rightarrow> App" where
  "switchSession sessionId a =
     (case find_session (Some sessionId) (sessions a) of
        None \<Rightarrow> a
      | Some _ \<Rightarrow>
          (let a1 = save_old_session a;
               a2 = a1\<lparr>currentSessionId := Some sessionId\<rparr>;
               a3 = a2\<lparr>sessions :=
                        update_session (Some sessionId)
                          (\<lambda>s. s\<lparr>container := (container s)\<lparr>style_display := Block\<rparr>\<rparr>)
                          (sessions a2)\<rparr>
           in case find_session (Some sessionId) (sessions a3) of
                None \<Rightarrow> a3
              | Some newSession \<Rightarrow>
                  focus_terminal newSession
                    (updateTabsUI
                      (setStatus ''connected'' (''Connected to '' @ sess_name newSession)
                        (setState (fileManagerState newSession) sessionId a3)))))"

text \<open>\<open>handleDisconnect\<close>, lines 372-383: the empty state.\<close>

definition handleDisconnect :: "App \<Rightarrow> App" where
  "handleDisconnect a =
     (let a1 = setStatus ''disconnected'' ''Disconnected'' (a\<lparr>currentSessionId := None\<rparr>);
          a2 = a1\<lparr>document := (document a1)
                  \<lparr>placeholder := map_option (\<lambda>_. Flex) (placeholder (document a1)),
                   btn_disconnect_disabled :=
                     map_option (\<lambda>_. True) (btn_disconnect_disabled (document a1))\<rparr>\<rparr>
      in clear a2)"

text \<open>
  \<open>closeSession(sessionId)\<close>, lines 341-370, run from its call to its end. \<open>ack\<close> is
  the outcome of the awaited \<open>invoke('ssh_disconnect')\<close>: a rejection is caught and
  written to the console. What the event loop may run while the function waits for the
  backend is not interleaved here.
\<close>

definition closeSession :: "unit response \<Rightarrow> string \<Rightarrow> App \<Rightarrow> App" where
  "closeSession ack sessionId a =
     (let sessionIndex = findIndex (sessions a) sessionId in
      if sessionIndex = -1 then a
      else
        (let session = sessions a ! nat sessionIndex;
             a1 = a\<lparr>calls := calls a @ [Invoke_ssh_disconnect sessionId] @
                      (case ack of
                         Resolved _ \<Rightarrow> []
                       | Rejected e \<Rightarrow> [Console_error (''Disconnect error: '' @ e)])\<rparr>;
             a2 = a1\<lparr>calls := calls a1 @ fst (destroy (terminalManager session)) @
                       [Element_remove (el_id (container session))]\<rparr>;
             a3 = a2\<lparr>sessions := splice1 (nat sessionIndex) (sessions a2)\<rparr>
         in if length (sessions a3) > 0
            then switchSession (sess_id (sessions a3 ! nat (max 0 (sessionIndex - 1)))) a3
            else updateTabsUI (handleDisconnect (a3\<lparr>currentSessionId := None\<rparr>))))"

text \<open>\<open>disconnect\<close>, lines 246-249: the toolbar button closes the current session.\<close>

definition disconnect :: "unit response \<Rightarrow> App \<Rightarrow> App" where
  "disconnect ack a =
     (case currentSessionId a of
        None \<Rightarrow> a
      | Some c \<Rightarrow> if c = [] then a else closeSession ack c a)"

text \<open>
  \<open>loadInitialFiles(sessionId)\<close> up to its request for the home directory, and its
  continuation when the backend has answered (lines 289-308).
\<close>

definition loadInitialFiles :: "string \<Rightarrow> App \<Rightarrow> App" where
  "loadInitialFiles sessionId a = a\<lparr>calls := calls a @ [Invoke_sftp_get_home sessionId]\<rparr>"

definition loadInitialFiles_resume :: "string \<Rightarrow> string response \<Rightarrow> App \<Rightarrow> App" where
  "loadInitialFiles_resume sessionId r a =
     (case r of
        Resolved homeDir \<Rightarrow>
          if currentSessionId a = Some sessionId then loadDirectory homeDir a
          else a\<lparr>sessions :=
                   update_session (Some sessionId)
                     (\<lambda>s. s\<lparr>fileManagerState := (fileManagerState s)\<lparr>path := homeDir\<rparr>\<rparr>)
                     (sessions a)\<rparr>
      | Rejected e \<Rightarrow>
          (let a1 = a\<lparr>calls := calls a @ [Console_warn ''Failed to get home directory'']\<rparr>
           in if currentSessionId a1 = Some sessionId then loadDirectory ''/'' a1 else a1))"

text \<open>\<open>addSession(sessionId, name)\<close>, lines 253-287.\<close>

definition addSession :: "string \<Rightarrow> string \<Rightarrow> App \<Rightarrow> App" where
  "addSession sessionId name a =
     (let session =
            \<lparr>sess_id = sessionId, sess_name = name,
             terminalManager = snd (init sessionId),
             container =
               \<lparr>el_id = ''term-'' @ sessionId, style_display = Unset,
                mounted = (terminals_container (document a) \<noteq> None)\<rparr>,
             fileManagerState = \<lparr>path = ''/'', history = [], historyIndex = None\<rparr>\<rparr>;
          a1 = a\<lparr>sessions := sessions a @ [session],
                 calls := calls a @ fst (init sessionId)\<rparr>;
          a2 = updateTabsUI (switchSession sessionId a1);
          a3 = a2\<lparr>document := (document a2)
                  \<lparr>btn_disconnect_disabled :=
                     map_option (\<lambda>_. False) (btn_disconnect_disabled (document a2))\<rparr>\<rparr>
      in loadInitialFiles sessionId a3)"

text \<open>
  \<open>connect(id)\<close>, lines 218-244, run from its call to its end. \<open>resp\<close> is the outcome
  of the awaited \<open>invoke('ssh_connect')\<close>. The result is the outcome of the promise
  that \<open>connect\<close> itself returns to its caller.
\<close>

definition hideModal :: "App \<Rightarrow> App" where
  "hideModal a = a\<lparr>document := (document a)\<lparr>connection_modal := DisplayNone\<rparr>\<rparr>"

definition connect :: "string \<Rightarrow> string response \<Rightarrow> App \<Rightarrow> unit response \<times> App" where
  "connect cid resp a =
     (case List.find (\<lambda>c. conn_id c = cid) (connections a) of
        None \<Rightarrow> (Resolved (), a)
      | Some connection \<Rightarrow>
          (let a1 = hideModal
                      (setStatus ''connecting'' (''Connecting to '' @ conn_host connection @ ''...'')
                        (a\<lparr>currentConnectionId := Some cid\<rparr>));
               a2 = a1\<lparr>calls := calls a1 @ [Invoke_ssh_connect (conn_id connection)]\<rparr>
           in case resp of
                Resolved sessionId \<Rightarrow>
                  (Resolved (),
                   addSession sessionId
                     (if conn_name connection \<noteq> [] then conn_name connection
                      else conn_host connection)
                     (setStatus ''connected'' (''Connected to '' @ conn_host connection) a2))
              | Rejected e \<Rightarrow>
                  (let a3 = setStatus ''error'' (''Connection failed: '' @ e) a2
                   in (Resolved (), a3\<lparr>calls := calls a3 @ [Console_error e]\<rparr>))))"


section \<open>Event listeners (lines 48-68)\<close>

text \<open>
  The payload of \<open>ssh-data\<close> is an array of numbers; \<open>new Uint8Array(data)\<close> keeps
  each number modulo 256.
\<close>

definition on_ssh_data :: "string \<Rightarrow> int list \<Rightarrow> App \<Rightarrow> App" where
  "on_ssh_data sessionId data a =
     (case find_session (Some sessionId) (sessions a) of
        None \<Rightarrow> a
      | Some session \<Rightarrow>
          a\<lparr>calls := calls a @ writeData (terminalManager session) (map word_of_int data)\<rparr>)"

definition on_ssh_error :: "string \<Rightarrow> string \<Rightarrow> App \<Rightarrow> App" where
  "on_ssh_error sessionId err a =
     (if Some sessionId = currentSessionId a then setStatus ''error'' (''Error: '' @ err) a
      else a)"

definition on_ssh_close :: "unit response \<Rightarrow> string \<Rightarrow> App \<Rightarrow> App" where
  "on_ssh_close ack sessionId a = closeSession ack sessionId a"

section \<open>Auxiliary definitions for the proofs\<close>

text \<open>
  The two assignments that \<open>switchSession\<close> makes to session records: the new session's
  container is shown; the old session's container is hidden and its
  \<open>fileManagerState\<close> overwritten with the directory browser's state.
\<close>

definition shown :: "Session \<Rightarrow> Session" where
  "shown s = s\<lparr>container := (container s)\<lparr>style_display := Block\<rparr>\<rparr>"

definition saved :: "FileManager \<Rightarrow> Session \<Rightarrow> Session" where
  "saved fm s = s\<lparr>container := (container s)\<lparr>style_display := DisplayNone\<rparr>,
                  fileManagerState := getState fm\<rparr>"

text \<open>
  The record that \<open>newSession\<close> refers to once the old session has been saved and the
  new one is shown, and the session array at that point.
\<close>

definition new_session :: "App \<Rightarrow> Session \<Rightarrow> Session" where
  "new_session a s =
     shown (if currentSessionId a = Some (sess_id s) then saved (fileManager a) s else s)"

definition switched_sessions :: "string \<Rightarrow> App \<Rightarrow> Session list" where
  "switched_sessions sid a =
     update_session (Some sid) shown
       (update_session (currentSessionId a) (saved (fileManager a)) (sessions a))"

text \<open>
  The calls that \<open>closeSession\<close> makes on the session it closes, and the state after its
  \<open>splice\<close>, before it picks the next session.
\<close>

definition teardown_calls :: "unit response \<Rightarrow> Session \<Rightarrow> call list" where
  "teardown_calls ack s =
     [Invoke_ssh_disconnect (sess_id s)] @
     (case ack of Resolved _ \<Rightarrow> [] | Rejected e \<Rightarrow> [Console_error (''Disconnect error: '' @ e)]) @
     fst (destroy (terminalManager s)) @ [Element_remove (el_id (container s))]"

definition torn_down :: "unit response \<Rightarrow> string \<Rightarrow> App \<Rightarrow> App" where
  "torn_down ack sid a =
     a\<lparr>calls := calls a @ teardown_calls ack (sessions a ! nat (findIndex (sessions a) sid)),
       sessions := splice1 (nat (findIndex (sessions a) sid)) (sessions a)\<rparr>"


section \<open>The view invariant\<close>

text \<open>
  A session's display surface is its container; it is hidden when its display style is
  \<open>'none'\<close>. \<open>displays_ok cur xs\<close>: the container of the session named by the pointer
  \<open>cur\<close> has the style \<open>'block'\<close>, every other container is hidden. The placeholder is
  shown when the document has it and its style is not \<open>'none'\<close>.
\<close>

definition displays_ok :: "string option \<Rightarrow> Session list \<Rightarrow> bool" where
  "displays_ok cur xs =
     (\<forall>s\<in>set xs. style_display (container s) =
                    (if cur = Some (sess_id s) then Block else DisplayNone))"

definition placeholder_shown :: "Document \<Rightarrow> bool" where
  "placeholder_shown d = (placeholder d \<noteq> None \<and> placeholder d \<noteq> Some DisplayNone)"

definition view_inv :: "App \<Rightarrow> bool" where
  "view_inv a =
     (distinct (map sess_id (sessions a)) \<and>
      placeholder (document a) \<noteq> None \<and>
      displays_ok (currentSessionId a) (sessions a) \<and>
      (case currentSessionId a of
         None \<Rightarrow> placeholder_shown (document a)
       | Some p \<Rightarrow> p \<in> sess_id ` set (sessions a)))"

section \<open>Sequences of operations\<close>

text \<open>
  The three operations of the controller, each with the outcome of its backend call, and
  the states that a sequence of them runs through. \<open>backend_ids_fresh\<close> is the
  backend's side of the contract: the id that a successful \<open>ssh_connect\<close> returns is not
  the id of a session that is still in \<open>sessions\<close>.
\<close>

datatype op = Connect string "string response" | SwitchTo string | CloseSession string "unit response"

fun step :: "op \<Rightarrow> App \<Rightarrow> App" where
  "step (Connect cid resp) a = snd (connect cid resp a)"
| "step (SwitchTo sid) a = switchSession sid a"
| "step (CloseSession sid ack) a = closeSession ack sid a"

fun states :: "op list \<Rightarrow> App \<Rightarrow> App list" where
  "states [] a = [a]"
| "states (x # xs) a = a # states xs (step x a)"

fun fresh_id :: "op \<Rightarrow> App \<Rightarrow> bool" where
  "fresh_id (Connect cid (Resolved sid)) a = (sid \<notin> sess_id ` set (sessions a))"
| "fresh_id _ a = True"

fun backend_ids_fresh :: "op list \<Rightarrow> App \<Rightarrow> bool" where
  "backend_ids_fresh [] a = True"
| "backend_ids_fresh (x # xs) a = (fresh_id x a \<and> backend_ids_fresh xs (step x a))"

section \<open>Example states\<close>

text \<open>
  The state that the constructors of \<open>App\<close> and \<open>FileManager\<close> set up, in a document
  that has every element the controller looks up, with no inline display style yet, and
  with the saved connections \<open>conns\<close> loaded.
\<close>

definition initial_document :: Document where
  "initial_document =
     \<lparr>placeholder = Some Unset, terminals_container = Some Unset,
      btn_disconnect_disabled = Some True, tabs_container = Some [],
      status_bar = Some (''status-dot'', ''Disconnected''), connection_modal = DisplayNone\<rparr>"

definition initial_fileManager :: FileManager where
  "initial_fileManager =
     \<lparr>currentPath = ''/'', fm_history = [], fm_historyIndex = - 1, files = [],
      file_list = InitialView, sftp_path_display = ''/''\<rparr>"

definition initial_app :: "Connection list \<Rightarrow> App" where
  "initial_app conns =
     \<lparr>sessions = [], currentSessionId = None, currentConnectionId = None,
      connections = conns, fileManager = initial_fileManager,
      document = initial_document, calls = []\<rparr>"

text \<open>One saved connection; the state after connecting once, where the backend
  returned the id \<open>A\<close>; and the state after connecting three times, where it returned
  \<open>A\<close>, \<open>B\<close> and \<open>C\<close>, so the tabs are \<open>[A, B, C]\<close> and \<open>C\<close> is active.\<close>

definition example_connection :: Connection where
  "example_connection = \<lparr>conn_id = ''c1'', conn_name = ''box'', conn_host = ''10.0.0.5''\<rparr>"

definition example_a :: App where
  "example_a = step (Connect ''c1'' (Resolved ''A'')) (initial_app [example_connection])"

definition example_abc :: App where
  "example_abc =
     step (Connect ''c1'' (Resolved ''C''))
       (step (Connect ''c1'' (Resolved ''B''))
         (step (Connect ''c1'' (Resolved ''A'')) (initial_app [example_connection])))"

text \<open>
  Tabs \<open>[A, B, C]\<close> with \<open>A\<close> active, after the directory browser has loaded a
  directory: \<open>/srv/www\<close> in \<open>example_browsing\<close>, and in \<open>example_empty_path\<close> a
  directory whose path the backend gave as the empty string.
\<close>

definition example_browsing :: App where
  "example_browsing =
     loadDirectory_resume ''/srv/www'' (Resolved [''index.html''])
       (switchSession ''A'' example_abc)"

definition example_empty_path :: App where
  "example_empty_path =
     loadDirectory_resume [] (Resolved []) (switchSession ''A'' example_abc)"


section \<open>Well-formed registries\<close>

text \<open>
  Every record of \<open>sessions\<close> is as \<open>addSession\<close> made it from a backend id: the id is
  not the empty string (the code tests ids for truthiness), and the session's
  \<open>TerminalManager\<close> is the one that \<open>init\<close> set up for that id, with a live terminal.
\<close>

definition registry_ok :: "App \<Rightarrow> bool" where
  "registry_ok a =
     (\<forall>s\<in>set (sessions a). sess_id s \<noteq> [] \<and> terminalManager s = snd (init (sess_id s)))"

text \<open>A directory fetch is the backend request \<open>sftp_list\<close>.\<close>

fun is_fetch :: "call \<Rightarrow> bool" where
  "is_fetch (Invoke_sftp_list p) = True"
| "is_fetch _ = False"



section \<open>The asynchronous functions, split at their await\<close>

text \<open>
  \<open>closeSession\<close> and \<open>connect\<close> are \<open>async\<close>: each runs up to its \<open>await\<close> of the
  backend call, and its continuation runs when the backend has answered. Between the two
  the event loop may run any other handler or continuation. Above, each function is one
  transition; here the two halves are separate, so that runs in which calls overlap can
  be stated.

  \<open>closeSession\<close> up to its await (lines 342-345): it returns when \<open>findIndex\<close> gives
  \<open>-1\<close> (\<open>None\<close>), otherwise it holds on to \<open>sessionIndex\<close> and \<open>session\<close>. Nothing is
  changed yet.
\<close>

definition closeSession_begin :: "string \<Rightarrow> App \<Rightarrow> (int \<times> Session) option" where
  "closeSession_begin sessionId a =
     (let sessionIndex = findIndex (sessions a) sessionId in
      if sessionIndex = -1 then None
      else Some (sessionIndex, sessions a ! nat sessionIndex))"

text \<open>
  A session object that \<open>splice\<close> has taken out of \<open>this.sessions\<close> is still there: a
  pending \<open>closeSession\<close> may hold it as its \<open>session\<close>, and its container stays a child
  of \<open>#terminals-container\<close> until \<open>container.remove()\<close> is called on it. A page is the
  application state together with these objects, in their present state and in the
  order of their removal.
\<close>

record Page =
  app :: App
  removed :: "Session list"

text \<open>
  The \<open>session\<close> held by a pending \<open>closeSession\<close> is a reference. Session objects are
  told apart by their id (the backend gives each live session an id of its own): the
  object is the record of \<open>this.sessions\<close> with that id, or else the removed object with
  that id. \<open>torn\<close> is what \<open>session.terminalManager.destroy()\<close> and
  \<open>session.container.remove()\<close> (lines 356-357) leave of the object.
\<close>

definition captured_object :: "Session \<Rightarrow> Page \<Rightarrow> Session" where
  "captured_object session w =
     (case find_session (Some (sess_id session)) (sessions (app w)) of
        Some r \<Rightarrow> r
      | None \<Rightarrow>
          (case find_session (Some (sess_id session)) (removed w) of
             Some r \<Rightarrow> r
           | None \<Rightarrow> session))"

definition torn :: "Session \<Rightarrow> Session" where
  "torn r = r\<lparr>terminalManager := snd (destroy (terminalManager r)),
              container := (container r)\<lparr>mounted := False\<rparr>\<rparr>"

text \<open>
  The continuation of \<open>closeSession\<close> up to its \<open>splice\<close> (lines 347-358), for the
  outcome \<open>ack\<close> of the backend call and the captured pair \<open>p\<close>: the rejection is
  logged, the captured object is torn down where it now is, and the record that is now
  at \<open>sessionIndex\<close>, if there is one, leaves \<open>this.sessions\<close>.
\<close>

definition resume_teardown :: "unit response \<Rightarrow> string \<Rightarrow> int \<times> Session \<Rightarrow> Page \<Rightarrow> Page" where
  "resume_teardown ack sessionId p w =
     (let sessionIndex = fst p;
          session = captured_object (snd p) w;
          k = Some (sess_id (snd p));
          in_sessions = (find_session k (sessions (app w)) \<noteq> None);
          a1 = (app w)\<lparr>calls := calls (app w) @ [Invoke_ssh_disconnect sessionId] @
                      (case ack of
                         Resolved _ \<Rightarrow> []
                       | Rejected e \<Rightarrow> [Console_error (''Disconnect error: '' @ e)])\<rparr>;
          a2 = a1\<lparr>calls := calls a1 @ fst (destroy (terminalManager session)) @
                       [Element_remove (el_id (container session))],
                 sessions := (if in_sessions then update_session k torn (sessions a1)
                              else sessions a1)\<rparr>;
          removed2 = (if in_sessions then removed w else update_session k torn (removed w));
          spliced = (if nat sessionIndex < length (sessions a2)
                     then [sessions a2 ! nat sessionIndex] else [])
      in \<lparr>app = a2\<lparr>sessions := splice1 (nat sessionIndex) (sessions a2)\<rparr>,
          removed = removed2 @ spliced\<rparr>)"

text \<open>
  The whole continuation (lines 347-369). \<open>this.sessions[Math.max(0, sessionIndex - 1)]\<close>
  is \<open>undefined\<close> when the index is past the end, and reading its \<open>id\<close> throws: the
  promise of \<open>closeSession\<close> rejects and the state stays as the \<open>splice\<close> left it.
\<close>

definition closeSession_resume ::
  "unit response \<Rightarrow> string \<Rightarrow> int \<times> Session \<Rightarrow> Page \<Rightarrow> unit response \<times> Page" where
  "closeSession_resume ack sessionId p w =
     (let w3 = resume_teardown ack sessionId p w;
          a3 = app w3;
          j = nat (max 0 (fst p - 1))
      in if length (sessions a3) > 0
         then (if j < length (sessions a3)
               then (Resolved (), w3\<lparr>app := switchSession (sess_id (sessions a3 ! j)) a3\<rparr>)
               else (Rejected ''TypeError'', w3))
         else (Resolved (),
               w3\<lparr>app := updateTabsUI (handleDisconnect (a3\<lparr>currentSessionId := None\<rparr>))\<rparr>))"

text \<open>\<open>connect\<close> up to its await (lines 219-233), and its continuation (lines 235-243).\<close>

definition connect_begin :: "string \<Rightarrow> App \<Rightarrow> App" where
  "connect_begin cid a =
     (case List.find (\<lambda>c. conn_id c = cid) (connections a) of
        None \<Rightarrow> a
      | Some connection \<Rightarrow>
          (let a1 = hideModal
                      (setStatus ''connecting'' (''Connecting to '' @ conn_host connection @ ''...'')
                        (a\<lparr>currentConnectionId := Some cid\<rparr>))
           in a1\<lparr>calls := calls a1 @ [Invoke_ssh_connect (conn_id connection)]\<rparr>))"

definition connect_resume :: "Connection \<Rightarrow> string response \<Rightarrow> App \<Rightarrow> App" where
  "connect_resume connection resp a =
     (case resp of
        Resolved sessionId \<Rightarrow>
          addSession sessionId
            (if conn_name connection \<noteq> [] then conn_name connection else conn_host connection)
            (setStatus ''connected'' (''Connected to '' @ conn_host connection) a)
      | Rejected e \<Rightarrow>
          (let a3 = setStatus ''error'' (''Connection failed: '' @ e) a
           in a3\<lparr>calls := calls a3 @ [Console_error e]\<rparr>))"

text \<open>
  The containers that the document displays: those of the session objects, in
  \<open>this.sessions\<close> or removed from it, that are still children of
  \<open>#terminals-container\<close> and have the display style \<open>'block'\<close>.
\<close>

definition displayed :: "Page \<Rightarrow> string list" where
  "displayed w =
     map el_id
       (filter (\<lambda>c. mounted c \<and> style_display c = Block)
          (map container (sessions (app w) @ removed w)))"


section \<open>Runs of handlers and continuations\<close>

text \<open>
  What the event loop can run, one at a time: a click on a tab (\<open>Switch\<close>), the two
  halves of \<open>connect\<close>, the continuation of a \<open>closeSession\<close> with the index and
  session it captured (its first half changes nothing), the continuations of
  \<open>loadInitialFiles\<close> and \<open>loadDirectory\<close>, the listeners of \<open>ssh-data\<close> and
  \<open>ssh-error\<close> (the listener of \<open>ssh-close\<close> is a \<open>closeSession\<close>), and any activity of
  the directory browser, which changes its own fields and makes calls (\<open>Browsing\<close>).
\<close>

datatype event =
    Switch string
  | Connect_begin string
  | Connect_resume Connection "string response"
  | Close_resume "unit response" string int Session
  | Home_resolved string "string response"
  | Listing string "string list response"
  | Ssh_data string "int list"
  | Ssh_error string string
  | Browsing FileManager "call list"

fun apply_event :: "event \<Rightarrow> Page \<Rightarrow> Page" where
  "apply_event (Switch z) w = w\<lparr>app := switchSession z (app w)\<rparr>"
| "apply_event (Connect_begin cid) w = w\<lparr>app := connect_begin cid (app w)\<rparr>"
| "apply_event (Connect_resume c r) w = w\<lparr>app := connect_resume c r (app w)\<rparr>"
| "apply_event (Close_resume ack sid i s) w = snd (closeSession_resume ack sid (i, s) w)"
| "apply_event (Home_resolved k r) w = w\<lparr>app := loadInitialFiles_resume k r (app w)\<rparr>"
| "apply_event (Listing p r) w = w\<lparr>app := loadDirectory_resume p r (app w)\<rparr>"
| "apply_event (Ssh_data k d) w = w\<lparr>app := on_ssh_data k d (app w)\<rparr>"
| "apply_event (Ssh_error k e) w = w\<lparr>app := on_ssh_error k e (app w)\<rparr>"
| "apply_event (Browsing fm cs) w =
     w\<lparr>app := (app w)\<lparr>fileManager := fm, calls := calls (app w) @ cs\<rparr>\<rparr>"

fun run_events :: "event list \<Rightarrow> Page \<Rightarrow> Page" where
  "run_events [] w = w"
| "run_events (e # es) w = run_events es (apply_event e w)"

text \<open>
  A run keeps the session \<open>x\<close> in the registry and inactive: no continuation of a
  \<open>closeSession\<close> splices a record with the id \<open>x\<close> out of \<open>this.sessions\<close>, and after
  no step is \<open>x\<close> the value of \<open>currentSessionId\<close>.
\<close>

fun keeps_record :: "string \<Rightarrow> event \<Rightarrow> Page \<Rightarrow> bool" where
  "keeps_record x (Close_resume ack sid i s) w =
     (length (sessions (app w)) \<le> nat i \<or> sess_id (sessions (app w) ! nat i) \<noteq> x)"
| "keeps_record x _ w = True"

fun kept_inactive :: "string \<Rightarrow> event list \<Rightarrow> Page \<Rightarrow> bool" where
  "kept_inactive x [] w = True"
| "kept_inactive x (e # es) w =
     (keeps_record x e w \<and> currentSessionId (app (apply_event e w)) \<noteq> Some x \<and>
      kept_inactive x es (apply_event e w))"

text \<open>
  The path stored for the inactive session \<open>x\<close> after a run that started with the stored
  path \<open>p\<close>: each home directory that the backend resolves for \<open>x\<close> replaces it
  (\<open>loadInitialFiles\<close>, lines 297-300); nothing else does.
\<close>

fun new_path :: "string \<Rightarrow> event \<Rightarrow> string \<Rightarrow> string" where
  "new_path x (Home_resolved k (Resolved h)) p = (if k = x then h else p)"
| "new_path x _ p = p"

fun stored_path :: "string \<Rightarrow> event list \<Rightarrow> string \<Rightarrow> string" where
  "stored_path x [] p = p"
| "stored_path x (e # es) p = stored_path x es (new_path x e p)"

text \<open>
  Tabs \<open>[A, B, C]\<close> with \<open>A\<close> active. The user closes \<open>A\<close>; while that call waits for
  the backend, the \<open>ssh-close\<close> event for \<open>A\<close> arrives and calls \<open>closeSession\<close> again, so
  both calls capture index 0. Then the first continuation runs, its request answered,
  and then the second, its request rejected.
\<close>

definition example_overlap :: Page where
  "example_overlap =
     (case closeSession_begin ''A'' (switchSession ''A'' example_abc) of
        None \<Rightarrow> \<lparr>app = switchSession ''A'' example_abc, removed = []\<rparr>
      | Some p \<Rightarrow>
          snd (closeSession_resume (Rejected ''gone'') ''A'' p
                (snd (closeSession_resume (Resolved ()) ''A'' p
                       \<lparr>app = switchSession ''A'' example_abc, removed = []\<rparr>))))"

text \<open>
  A run while \<open>B\<close> is active, after \<open>switchSession('B')\<close> in \<open>example_browsing\<close>: a
  listing arrives for the directory browser, the home directory of \<open>A\<close> resolves, data
  arrives for \<open>A\<close>, and the continuation of a \<open>closeSession('C')\<close> runs, which captured
  index 2.
\<close>

definition example_run :: "event list" where
  "example_run =
     [Listing ''/home/b'' (Resolved [''notes.txt'']),
      Home_resolved ''A'' (Resolved ''/home/u''),
      Ssh_data ''A'' [104, 105],
      Close_resume (Resolved ()) ''C'' 2 (sessions (switchSession ''B'' example_browsing) ! 2)]"


section \<open>Lookups, updates and splices of the session array\<close>


lemma find_session_None_iff:
  "find_session k xs = None \<longleftrightarrow> k \<notin> Some ` sess_id ` set xs"
  by (induction xs) (auto simp: find_session_def)

lemma find_session_Some_id:
  "find_session k xs = Some s \<Longrightarrow> k = Some (sess_id s) \<and> s \<in> set xs"
  by (induction xs) (auto simp: find_session_def split: if_splits)

lemma find_session_present:
  "k \<in> sess_id ` set xs \<Longrightarrow> \<exists>s. find_session (Some k) xs = Some s"
  using find_session_None_iff [of "Some k" xs] by (cases "find_session (Some k) xs") auto

lemma findIndex_ge: "- 1 \<le> findIndex xs k"
  by (induction xs) (auto simp: Let_def)

lemma findIndex_absent_iff: "findIndex xs k = - 1 \<longleftrightarrow> k \<notin> sess_id ` set xs"
proof (induction xs)
  case Nil
  show ?case by simp
next
  case (Cons s xs)
  have "- 1 \<le> findIndex xs k" by (rule findIndex_ge)
  with Cons show ?case by (auto simp: Let_def)
qed

lemma findIndex_present:
  assumes "findIndex xs k \<noteq> - 1"
  shows "0 \<le> findIndex xs k \<and> nat (findIndex xs k) < length xs
         \<and> sess_id (xs ! nat (findIndex xs k)) = k"
  using assms
proof (induction xs)
  case Nil
  then show ?case by simp
next
  case (Cons s xs)
  show ?case
  proof (cases "sess_id s = k")
    case True
    then show ?thesis by simp
  next
    case False
    with Cons.prems have ne: "findIndex xs k \<noteq> - 1" by (auto simp: Let_def split: if_splits)
    from Cons.IH [OF ne] have ih: "0 \<le> findIndex xs k" "nat (findIndex xs k) < length xs"
      "sess_id (xs ! nat (findIndex xs k)) = k" by simp_all
    have idx: "findIndex (s # xs) k = findIndex xs k + 1" using False ne by (simp add: Let_def)
    have n: "nat (findIndex xs k + 1) = Suc (nat (findIndex xs k))" using ih(1) by simp
    show ?thesis using ih False unfolding idx n by simp
  qed
qed

lemma update_session_ids:
  "(\<And>s. sess_id (f s) = sess_id s) \<Longrightarrow> map sess_id (update_session k f xs) = map sess_id xs"
  by (induction xs) auto

lemma update_session_absent:
  "k \<notin> Some ` sess_id ` set xs \<Longrightarrow> update_session k f xs = xs"
  by (induction xs) auto

lemma update_session_distinct:
  "distinct (map sess_id xs) \<Longrightarrow>
   update_session k f xs = map (\<lambda>s. if Some (sess_id s) = k then f s else s) xs"
proof (induction xs)
  case Nil
  show ?case by simp
next
  case (Cons s xs)
  show ?case
  proof (cases "Some (sess_id s) = k")
    case True
    with Cons.prems have "\<forall>t\<in>set xs. Some (sess_id t) \<noteq> k" by (auto simp: image_iff)
    then have "map (\<lambda>s. if Some (sess_id s) = k then f s else s) xs = xs"
      by (induction xs) auto
    with True show ?thesis by simp
  next
    case False
    with Cons show ?thesis by simp
  qed
qed

lemma find_session_update:
  assumes "\<And>s. sess_id (f s) = sess_id s"
  shows "find_session k (update_session k' f xs) =
         (if k = k' then map_option f (find_session k xs) else find_session k xs)"
  using assms by (induction xs) (auto simp: find_session_def)

lemma splice1_ids: "map sess_id (splice1 i xs) = splice1 i (map sess_id xs)"
  by (simp add: splice1_def take_map drop_map)

lemma splice1_set: "set (splice1 i xs) \<subseteq> set xs"
  by (auto simp: splice1_def dest: in_set_takeD in_set_dropD)

lemma splice1_length: "i < length xs \<Longrightarrow> length (splice1 i xs) = length xs - 1"
  by (auto simp: splice1_def)

lemma splice1_distinct:
  assumes "distinct xs"
  shows "distinct (splice1 i xs)"
proof -
  have "distinct (take i xs @ drop i xs)" using assms by simp
  then have c: "set (take i xs) \<inter> set (drop i xs) = {}" by (simp only: distinct_append)
  have d: "set (drop (Suc i) xs) \<subseteq> set (drop i xs)"
    by (rule set_drop_subset_set_drop) simp
  have "distinct (take i xs)" "distinct (drop (Suc i) xs)" using assms by simp_all
  with c d show ?thesis unfolding splice1_def by (simp only: distinct_append) blast
qed

lemma splice1_removes:
  assumes "distinct xs" "i < length xs"
  shows "xs ! i \<notin> set (splice1 i xs)"
proof -
  have xs: "xs = take i xs @ xs ! i # drop (Suc i) xs"
    using assms(2) by (simp add: id_take_nth_drop [symmetric])
  have "distinct (take i xs @ xs ! i # drop (Suc i) xs)" using assms(1) xs by simp
  then show ?thesis by (auto simp: splice1_def)
qed

section \<open>What each method changes\<close>

lemma shown_simps [simp]:
  "sess_id (shown s) = sess_id s" "sess_name (shown s) = sess_name s"
  "terminalManager (shown s) = terminalManager s"
  "fileManagerState (shown s) = fileManagerState s"
  "style_display (container (shown s)) = Block"
  "el_id (container (shown s)) = el_id (container s)"
  by (simp_all add: shown_def)

lemma saved_simps [simp]:
  "sess_id (saved fm s) = sess_id s" "sess_name (saved fm s) = sess_name s"
  "terminalManager (saved fm s) = terminalManager s"
  "fileManagerState (saved fm s) = getState fm"
  "style_display (container (saved fm s)) = DisplayNone"
  "el_id (container (saved fm s)) = el_id (container s)"
  by (simp_all add: saved_def)

lemma setStatus_fields [simp]:
  "sessions (setStatus st m a) = sessions a"
  "currentSessionId (setStatus st m a) = currentSessionId a"
  "currentConnectionId (setStatus st m a) = currentConnectionId a"
  "connections (setStatus st m a) = connections a"
  "fileManager (setStatus st m a) = fileManager a"
  "calls (setStatus st m a) = calls a"
  "placeholder (document (setStatus st m a)) = placeholder (document a)"
  "terminals_container (document (setStatus st m a)) = terminals_container (document a)"
  "tabs_container (document (setStatus st m a)) = tabs_container (document a)"
  "btn_disconnect_disabled (document (setStatus st m a)) = btn_disconnect_disabled (document a)"
  "status_bar (document (setStatus st m a)) =
     map_option (\<lambda>_. (''status-dot '' @ st, m)) (status_bar (document a))"
  by (simp_all add: setStatus_def)

lemma updateTabsUI_fields [simp]:
  "sessions (updateTabsUI a) = sessions a"
  "currentSessionId (updateTabsUI a) = currentSessionId a"
  "currentConnectionId (updateTabsUI a) = currentConnectionId a"
  "connections (updateTabsUI a) = connections a"
  "fileManager (updateTabsUI a) = fileManager a"
  "calls (updateTabsUI a) = calls a"
  "status_bar (document (updateTabsUI a)) = status_bar (document a)"
  "btn_disconnect_disabled (document (updateTabsUI a)) = btn_disconnect_disabled (document a)"
  by (simp_all add: updateTabsUI_def split: option.splits)

lemma updateTabsUI_placeholder:
  "placeholder (document (updateTabsUI a)) =
     (case tabs_container (document a) of
        None \<Rightarrow> placeholder (document a)
      | Some _ \<Rightarrow> map_option (\<lambda>_. if sessions a = [] then Flex else DisplayNone)
                    (placeholder (document a)))"
  by (simp add: updateTabsUI_def split: option.splits)

lemma updateTabsUI_placeholder_None [simp]:
  "placeholder (document (updateTabsUI a)) = None \<longleftrightarrow> placeholder (document a) = None"
  by (simp add: updateTabsUI_placeholder split: option.splits)

lemma loadDirectory_fields [simp]:
  "sessions (loadDirectory p a) = sessions a"
  "currentSessionId (loadDirectory p a) = currentSessionId a"
  "currentConnectionId (loadDirectory p a) = currentConnectionId a"
  "connections (loadDirectory p a) = connections a"
  "document (loadDirectory p a) = document a"
  "currentPath (fileManager (loadDirectory p a)) = currentPath (fileManager a)"
  "fm_history (fileManager (loadDirectory p a)) = fm_history (fileManager a)"
  "fm_historyIndex (fileManager (loadDirectory p a)) = fm_historyIndex (fileManager a)"
  by (simp_all add: loadDirectory_def)

lemma loadDirectory_calls:
  "calls (loadDirectory p a) =
     (if currentSessionId a = None \<or> currentSessionId a = Some [] then calls a
      else calls a @ [Invoke_sftp_list p])"
  by (simp add: loadDirectory_def)

lemma setState_fields [simp]:
  "sessions (setState st k a) = sessions a"
  "currentSessionId (setState st k a) = currentSessionId a"
  "currentConnectionId (setState st k a) = currentConnectionId a"
  "connections (setState st k a) = connections a"
  "document (setState st k a) = document a"
  "currentPath (fileManager (setState st k a)) = (if path st = [] then ''/'' else path st)"
  "fm_history (fileManager (setState st k a)) = history st"
  "fm_historyIndex (fileManager (setState st k a)) =
     (case historyIndex st of Some n \<Rightarrow> n | None \<Rightarrow> - 1)"
  by (simp_all add: setState_def Let_def)

lemma setState_calls:
  "calls (setState st k a) =
     (if currentSessionId a = Some k \<and> k \<noteq> []
      then calls a @ [Invoke_sftp_list (if path st = [] then ''/'' else path st)]
      else calls a)"
  by (auto simp: setState_def Let_def loadDirectory_def)

lemma focus_terminal_fields [simp]:
  "sessions (focus_terminal s a) = sessions a"
  "currentSessionId (focus_terminal s a) = currentSessionId a"
  "currentConnectionId (focus_terminal s a) = currentConnectionId a"
  "connections (focus_terminal s a) = connections a"
  "document (focus_terminal s a) = document a"
  "fileManager (focus_terminal s a) = fileManager a"
  by (simp_all add: focus_terminal_def)

section \<open>switchSession and closeSession in closed form\<close>

lemma save_old_session_eq:
  "save_old_session a =
     a\<lparr>sessions := update_session (currentSessionId a) (saved (fileManager a)) (sessions a)\<rparr>"
proof (cases "find_session (currentSessionId a) (sessions a)")
  case None
  then have "update_session (currentSessionId a) (saved (fileManager a)) (sessions a) = sessions a"
    by (simp add: find_session_None_iff update_session_absent)
  with None show ?thesis by (simp add: save_old_session_def)
next
  case (Some s)
  have "saved (fileManager a) =
        (\<lambda>s. s\<lparr>container := (container s)\<lparr>style_display := DisplayNone\<rparr>,
                fileManagerState := getState (fileManager a)\<rparr>)"
    by (rule ext) (simp add: saved_def)
  with Some show ?thesis by (simp add: save_old_session_def)
qed

lemma switchSession_present:
  assumes "find_session (Some sid) (sessions a) = Some s"
  shows "switchSession sid a =
           focus_terminal (new_session a s)
             (updateTabsUI
               (setStatus ''connected'' (''Connected to '' @ sess_name s)
                 (setState (fileManagerState (new_session a s)) sid
                   (a\<lparr>currentSessionId := Some sid, sessions := switched_sessions sid a\<rparr>))))"
proof -
  have sid: "sess_id s = sid" using assms by (auto dest: find_session_Some_id)
  have sh: "shown = (\<lambda>s. s\<lparr>container := (container s)\<lparr>style_display := Block\<rparr>\<rparr>)"
    by (rule ext) (simp add: shown_def)
  have f1: "find_session (Some sid)
              (update_session (currentSessionId a) (saved (fileManager a)) (sessions a)) =
            Some (if currentSessionId a = Some sid then saved (fileManager a) s else s)"
  proof (cases "currentSessionId a = Some sid")
    case True
    then show ?thesis using assms by (simp add: find_session_update)
  next
    case False
    then have "Some sid \<noteq> currentSessionId a" by auto
    then show ?thesis using assms False by (simp add: find_session_update)
  qed
  have f2: "find_session (Some sid) (switched_sessions sid a) = Some (new_session a s)"
    unfolding switched_sessions_def new_session_def
    by (simp add: find_session_update f1 sid)
  have nm: "sess_name (new_session a s) = sess_name s" by (simp add: new_session_def)
  show ?thesis
    unfolding switchSession_def
    by (simp add: assms save_old_session_eq Let_def sh [symmetric]
          f2 [unfolded switched_sessions_def] nm switched_sessions_def)
qed

lemma switchSession_pointer:
  "sid \<in> sess_id ` set (sessions a) \<Longrightarrow> currentSessionId (switchSession sid a) = Some sid"
  using find_session_present [of sid "sessions a"] by (auto simp: switchSession_present)

lemma switchSession_sessions:
  "sid \<in> sess_id ` set (sessions a) \<Longrightarrow> sessions (switchSession sid a) = switched_sessions sid a"
  using find_session_present [of sid "sessions a"] by (auto simp: switchSession_present)

lemma switched_sessions_ids: "map sess_id (switched_sessions sid a) = map sess_id (sessions a)"
  by (simp add: switched_sessions_def update_session_ids)

lemma switchSession_ids: "map sess_id (sessions (switchSession sid a)) = map sess_id (sessions a)"
proof (cases "sid \<in> sess_id ` set (sessions a)")
  case True
  then show ?thesis by (simp add: switchSession_sessions switched_sessions_ids)
next
  case False
  then have "find_session (Some sid) (sessions a) = None" by (auto simp: find_session_None_iff)
  then show ?thesis by (simp add: switchSession_def)
qed

lemma switched_sessions_distinct:
  assumes "distinct (map sess_id (sessions a))"
  shows "switched_sessions sid a =
           map (\<lambda>s. if sess_id s = sid then new_session a s
                    else if Some (sess_id s) = currentSessionId a then saved (fileManager a) s
                    else s) (sessions a)"
proof -
  let ?inner = "update_session (currentSessionId a) (saved (fileManager a)) (sessions a)"
  have e1: "?inner =
      map (\<lambda>s. if Some (sess_id s) = currentSessionId a then saved (fileManager a) s else s)
        (sessions a)"
    using assms by (rule update_session_distinct)
  have d: "distinct (map sess_id ?inner)"
    using assms by (simp add: update_session_ids)
  have e2: "update_session (Some sid) shown ?inner =
      map (\<lambda>s. if Some (sess_id s) = Some sid then shown s else s) ?inner"
    using d by (rule update_session_distinct)
  show ?thesis
    unfolding switched_sessions_def e2
    by (subst e1) (auto simp: new_session_def)
qed

lemma clear_fields [simp]:
  "sessions (clear a) = sessions a"
  "currentSessionId (clear a) = currentSessionId a"
  "currentConnectionId (clear a) = currentConnectionId a"
  "connections (clear a) = connections a"
  "document (clear a) = document a"
  "calls (clear a) = calls a"
  by (simp_all add: clear_def)

lemma handleDisconnect_fields [simp]:
  "sessions (handleDisconnect a) = sessions a"
  "currentSessionId (handleDisconnect a) = None"
  "currentConnectionId (handleDisconnect a) = currentConnectionId a"
  "connections (handleDisconnect a) = connections a"
  "calls (handleDisconnect a) = calls a"
  "placeholder (document (handleDisconnect a)) = map_option (\<lambda>_. Flex) (placeholder (document a))"
  "btn_disconnect_disabled (document (handleDisconnect a)) =
     map_option (\<lambda>_. True) (btn_disconnect_disabled (document a))"
  "tabs_container (document (handleDisconnect a)) = tabs_container (document a)"
  "status_bar (document (handleDisconnect a)) =
     map_option (\<lambda>_. (''status-dot disconnected'', ''Disconnected'')) (status_bar (document a))"
  by (simp_all add: handleDisconnect_def Let_def)

lemma closeSession_present:
  assumes "sid \<in> sess_id ` set (sessions a)"
  shows "closeSession ack sid a =
           (if sessions (torn_down ack sid a) \<noteq> []
            then switchSession
                   (sess_id (sessions (torn_down ack sid a) !
                      nat (max 0 (findIndex (sessions a) sid - 1))))
                   (torn_down ack sid a)
            else updateTabsUI (handleDisconnect ((torn_down ack sid a)\<lparr>currentSessionId := None\<rparr>)))"
proof -
  have ne: "findIndex (sessions a) sid \<noteq> - 1" using assms by (simp add: findIndex_absent_iff)
  have id: "sess_id (sessions a ! nat (findIndex (sessions a) sid)) = sid"
    using findIndex_present [OF ne] by simp
  show ?thesis
    unfolding closeSession_def
    using ne by (simp add: Let_def torn_down_def teardown_calls_def id)
qed

lemma torn_down_fields [simp]:
  "currentSessionId (torn_down ack sid a) = currentSessionId a"
  "document (torn_down ack sid a) = document a"
  "fileManager (torn_down ack sid a) = fileManager a"
  "connections (torn_down ack sid a) = connections a"
  "currentConnectionId (torn_down ack sid a) = currentConnectionId a"
  "sessions (torn_down ack sid a) = splice1 (nat (findIndex (sessions a) sid)) (sessions a)"
  by (simp_all add: torn_down_def)

lemma next_index_in_range:
  assumes "sid \<in> sess_id ` set xs" "splice1 (nat (findIndex xs sid)) xs \<noteq> []"
  shows "nat (max 0 (findIndex xs sid - 1)) < length (splice1 (nat (findIndex xs sid)) xs)"
proof -
  have ne: "findIndex xs sid \<noteq> - 1" using assms(1) by (simp add: findIndex_absent_iff)
  from findIndex_present [OF ne]
  have r: "0 \<le> findIndex xs sid" "nat (findIndex xs sid) < length xs" by simp_all
  have len: "length (splice1 (nat (findIndex xs sid)) xs) = length xs - 1"
    using r(2) by (rule splice1_length)
  have pos: "0 < length xs - 1" using assms(2) len by (cases "splice1 (nat (findIndex xs sid)) xs") auto
  show ?thesis using r pos unfolding len by (cases "findIndex xs sid = 0") auto
qed

lemma closeSession_ids:
  assumes "sid \<in> sess_id ` set (sessions a)"
  shows "map sess_id (sessions (closeSession ack sid a)) =
         splice1 (nat (findIndex (sessions a) sid)) (map sess_id (sessions a))"
proof (cases "sessions (torn_down ack sid a) = []")
  case True
  then have "sessions (closeSession ack sid a) = sessions (torn_down ack sid a)"
    by (simp add: closeSession_present [OF assms])
  then show ?thesis by (simp add: splice1_ids)
next
  case False
  then show ?thesis
    by (simp add: closeSession_present [OF assms] switchSession_ids splice1_ids)
qed

lemma switchSession_placeholder_None:
  "placeholder (document (switchSession sid a)) = None \<longleftrightarrow> placeholder (document a) = None"
proof (cases "find_session (Some sid) (sessions a)")
  case None
  then show ?thesis by (simp add: switchSession_def)
next
  case (Some s)
  then show ?thesis by (simp add: switchSession_present)
qed

lemma closeSession_pointer:
  assumes "sid \<in> sess_id ` set (sessions a)"
  shows "currentSessionId (closeSession ack sid a) =
           (if sessions (closeSession ack sid a) = [] then None
            else Some (map sess_id (sessions (closeSession ack sid a)) !
                         nat (max 0 (findIndex (sessions a) sid - 1))))"
proof (cases "sessions (torn_down ack sid a) = []")
  case True
  then show ?thesis by (simp add: closeSession_present [OF assms])
next
  case False
  let ?xs = "sessions (torn_down ack sid a)"
  let ?j = "nat (max 0 (findIndex (sessions a) sid - 1))"
  have j: "?j < length ?xs" using next_index_in_range [OF assms] False by simp
  then have mem: "sess_id (?xs ! ?j) \<in> sess_id ` set (sessions (torn_down ack sid a))"
    by (metis imageI nth_mem)
  have ids: "map sess_id (sessions (closeSession ack sid a)) = map sess_id ?xs"
    using closeSession_ids [OF assms, of ack] by (simp add: splice1_ids)
  then have ne: "sessions (closeSession ack sid a) \<noteq> []" using False by auto
  have "currentSessionId (closeSession ack sid a) = Some (sess_id (?xs ! ?j))"
    using False switchSession_pointer [OF mem] by (simp add: closeSession_present [OF assms])
  also have "sess_id (?xs ! ?j) = map sess_id ?xs ! ?j" using j by simp
  finally show ?thesis using ne ids by simp
qed

section \<open>The view invariant is preserved\<close>

lemma new_session_fields [simp]:
  "sess_id (new_session a s) = sess_id s"
  "style_display (container (new_session a s)) = Block"
  "terminalManager (new_session a s) = terminalManager s"
  "sess_name (new_session a s) = sess_name s"
  by (simp_all add: new_session_def)

lemma switchSession_displays:
  assumes d: "distinct (map sess_id (sessions a))"
    and p: "sid \<in> sess_id ` set (sessions a)"
    and o: "\<forall>s\<in>set (sessions a). sess_id s \<noteq> sid \<longrightarrow>
              style_display (container s) =
                (if currentSessionId a = Some (sess_id s) then Block else DisplayNone)"
  shows "displays_ok (Some sid) (sessions (switchSession sid a))"
proof -
  let ?g = "\<lambda>s. if sess_id s = sid then new_session a s
                else if Some (sess_id s) = currentSessionId a then saved (fileManager a) s
                else s"
  have eq: "sessions (switchSession sid a) = map ?g (sessions a)"
    using switchSession_sessions [OF p] switched_sessions_distinct [OF d] by simp
  have g: "style_display (container (?g s)) =
          (if Some sid = Some (sess_id (?g s)) then Block else DisplayNone)"
    if "s \<in> set (sessions a)" for s
  proof (cases "sess_id s = sid")
    case True
    then show ?thesis by simp
  next
    case False
    note ne = this
    show ?thesis
    proof (cases "Some (sess_id s) = currentSessionId a")
      case True
      then have "currentSessionId a = Some (sess_id s)" by simp
      with ne show ?thesis by simp
    next
      case False
      then have "currentSessionId a \<noteq> Some (sess_id s)" by auto
      with o that ne False show ?thesis by auto
    qed
  qed
  show ?thesis
    unfolding displays_ok_def eq
  proof (rule ballI)
    fix t
    assume "t \<in> set (map ?g (sessions a))"
    then obtain s where s: "s \<in> set (sessions a)" and t: "t = ?g s"
      unfolding set_map by blast
    show "style_display (container t) =
            (if Some sid = Some (sess_id t) then Block else DisplayNone)"
      unfolding t using s by (rule g)
  qed
qed

lemma switchSession_id_set:
  "sess_id ` set (sessions (switchSession sid a)) = sess_id ` set (sessions a)"
  using switchSession_ids [of sid a] by (metis set_map)


lemma view_inv_cong:
  assumes "sessions b = sessions a" "currentSessionId b = currentSessionId a"
    "placeholder (document b) = placeholder (document a)"
  shows "view_inv b = view_inv a"
  using assms by (simp add: view_inv_def placeholder_shown_def split: option.splits)

lemma view_inv_active:
  assumes "currentSessionId a = Some p"
  shows "view_inv a \<longleftrightarrow>
           distinct (map sess_id (sessions a)) \<and> placeholder (document a) \<noteq> None \<and>
           displays_ok (Some p) (sessions a) \<and> p \<in> sess_id ` set (sessions a)"
  using assms by (simp add: view_inv_def)

lemma switchSession_establishes:
  assumes d: "distinct (map sess_id (sessions a))"
    and ph: "placeholder (document a) \<noteq> None"
    and p: "sid \<in> sess_id ` set (sessions a)"
    and o: "\<forall>s\<in>set (sessions a). sess_id s \<noteq> sid \<longrightarrow>
              style_display (container s) =
                (if currentSessionId a = Some (sess_id s) then Block else DisplayNone)"
  shows "view_inv (switchSession sid a)"
proof -
  have cur: "currentSessionId (switchSession sid a) = Some sid"
    using p by (rule switchSession_pointer)
  have "displays_ok (Some sid) (sessions (switchSession sid a))"
    using d p o by (rule switchSession_displays)
  then show ?thesis
    unfolding view_inv_active [OF cur]
    using d ph p by (simp add: switchSession_ids switchSession_placeholder_None switchSession_id_set)
qed

lemma view_inv_switchSession:
  assumes "view_inv a"
  shows "view_inv (switchSession sid a)"
proof (cases "sid \<in> sess_id ` set (sessions a)")
  case False
  then have "find_session (Some sid) (sessions a) = None" by (auto simp: find_session_None_iff)
  then show ?thesis using assms by (simp add: switchSession_def)
next
  case True
  show ?thesis
  proof (rule switchSession_establishes [OF _ _ True])
    show "distinct (map sess_id (sessions a))" using assms by (simp add: view_inv_def)
    show "placeholder (document a) \<noteq> None" using assms by (simp add: view_inv_def)
    show "\<forall>s\<in>set (sessions a). sess_id s \<noteq> sid \<longrightarrow>
              style_display (container s) =
                (if currentSessionId a = Some (sess_id s) then Block else DisplayNone)"
      using assms by (simp add: view_inv_def displays_ok_def)
  qed
qed

lemma view_inv_closeSession:
  assumes "view_inv a"
  shows "view_inv (closeSession ack sid a)"
proof (cases "sid \<in> sess_id ` set (sessions a)")
  case False
  then have "findIndex (sessions a) sid = - 1" by (simp add: findIndex_absent_iff)
  then show ?thesis using assms by (simp add: closeSession_def)
next
  case True
  let ?t = "torn_down ack sid a"
  have d: "distinct (map sess_id (sessions ?t))"
    using assms by (simp add: view_inv_def splice1_ids splice1_distinct)
  have ph: "placeholder (document ?t) \<noteq> None" using assms by (simp add: view_inv_def)
  have sub: "set (sessions ?t) \<subseteq> set (sessions a)" by (simp add: splice1_set)
  show ?thesis
  proof (cases "sessions ?t = []")
    case True
    note empty = this
    let ?r = "updateTabsUI (handleDisconnect (?t\<lparr>currentSessionId := None\<rparr>))"
    have r: "closeSession ack sid a = ?r"
      using empty by (simp add: closeSession_present [OF \<open>sid \<in> sess_id ` set (sessions a)\<close>])
    have s: "sessions ?r = []" using empty by simp
    have c: "currentSessionId ?r = None" by simp
    obtain v where v: "placeholder (document a) = Some v" using ph by auto
    have p: "placeholder (document ?r) = Some Flex"
      using empty v by (simp add: updateTabsUI_placeholder split: option.splits)
    show ?thesis
      unfolding r view_inv_def s c by (simp add: displays_ok_def placeholder_shown_def p)
  next
    case False
    let ?j = "nat (max 0 (findIndex (sessions a) sid - 1))"
    have j: "?j < length (sessions ?t)" using next_index_in_range [OF True] False by simp
    then have mem: "sess_id (sessions ?t ! ?j) \<in> sess_id ` set (sessions ?t)"
      by (metis imageI nth_mem)
    have r: "closeSession ack sid a = switchSession (sess_id (sessions ?t ! ?j)) ?t"
      using False by (simp add: closeSession_present [OF True])
    have o: "\<forall>s\<in>set (sessions ?t). sess_id s \<noteq> sess_id (sessions ?t ! ?j) \<longrightarrow>
              style_display (container s) =
                (if currentSessionId ?t = Some (sess_id s) then Block else DisplayNone)"
      using assms sub by (auto simp: view_inv_def displays_ok_def)
    show ?thesis unfolding r using d ph mem o by (rule switchSession_establishes)
  qed
qed


lemma loadInitialFiles_fields [simp]:
  "sessions (loadInitialFiles k a) = sessions a"
  "currentSessionId (loadInitialFiles k a) = currentSessionId a"
  "document (loadInitialFiles k a) = document a"
  "fileManager (loadInitialFiles k a) = fileManager a"
  "connections (loadInitialFiles k a) = connections a"
  "currentConnectionId (loadInitialFiles k a) = currentConnectionId a"
  "calls (loadInitialFiles k a) = calls a @ [Invoke_sftp_get_home k]"
  by (simp_all add: loadInitialFiles_def)

lemma hideModal_fields [simp]:
  "sessions (hideModal a) = sessions a"
  "currentSessionId (hideModal a) = currentSessionId a"
  "currentConnectionId (hideModal a) = currentConnectionId a"
  "connections (hideModal a) = connections a"
  "fileManager (hideModal a) = fileManager a"
  "calls (hideModal a) = calls a"
  "placeholder (document (hideModal a)) = placeholder (document a)"
  "status_bar (document (hideModal a)) = status_bar (document a)"
  by (simp_all add: hideModal_def)

lemma addSession_eq:
  "addSession sid name a =
     (let s = \<lparr>sess_id = sid, sess_name = name, terminalManager = snd (init sid),
               container = \<lparr>el_id = ''term-'' @ sid, style_display = Unset,
                            mounted = (terminals_container (document a) \<noteq> None)\<rparr>,
               fileManagerState = \<lparr>path = ''/'', history = [], historyIndex = None\<rparr>\<rparr>;
          a2 = updateTabsUI (switchSession sid
                 (a\<lparr>sessions := sessions a @ [s], calls := calls a @ fst (init sid)\<rparr>))
      in loadInitialFiles sid
           (a2\<lparr>document := (document a2)
                \<lparr>btn_disconnect_disabled :=
                   map_option (\<lambda>_. False) (btn_disconnect_disabled (document a2))\<rparr>\<rparr>))"
  by (simp add: addSession_def Let_def)

lemma view_inv_addSession:
  assumes inv: "view_inv a" and fresh: "sid \<notin> sess_id ` set (sessions a)"
  shows "view_inv (addSession sid name a)"
proof -
  define s where "s = \<lparr>sess_id = sid, sess_name = name, terminalManager = snd (init sid),
               container = \<lparr>el_id = ''term-'' @ sid, style_display = Unset,
                            mounted = (terminals_container (document a) \<noteq> None)\<rparr>,
               fileManagerState = \<lparr>path = ''/'', history = [], historyIndex = None\<rparr>\<rparr>"
  define a1 where "a1 = a\<lparr>sessions := sessions a @ [s], calls := calls a @ fst (init sid)\<rparr>"
  have sid: "sess_id s = sid" by (simp add: s_def)
  have d: "distinct (map sess_id (sessions a1))"
    using inv fresh by (simp add: a1_def view_inv_def sid)
  have ph: "placeholder (document a1) \<noteq> None" using inv by (simp add: a1_def view_inv_def)
  have p: "sid \<in> sess_id ` set (sessions a1)" by (simp add: a1_def sid)
  have o: "\<forall>t\<in>set (sessions a1). sess_id t \<noteq> sid \<longrightarrow>
              style_display (container t) =
                (if currentSessionId a1 = Some (sess_id t) then Block else DisplayNone)"
    using inv by (auto simp: a1_def view_inv_def displays_ok_def sid)
  have v: "view_inv (switchSession sid a1)" using d ph p o by (rule switchSession_establishes)
  have cur: "currentSessionId (switchSession sid a1) = Some sid"
    using p by (rule switchSession_pointer)
  let ?a2 = "updateTabsUI (switchSession sid a1)"
  let ?r = "loadInitialFiles sid
           (?a2\<lparr>document := (document ?a2)
                \<lparr>btn_disconnect_disabled :=
                   map_option (\<lambda>_. False) (btn_disconnect_disabled (document ?a2))\<rparr>\<rparr>)"
  have r: "addSession sid name a = ?r"
    by (simp add: addSession_eq Let_def s_def a1_def)
  have cur': "currentSessionId ?r = Some sid" using cur by simp
  show ?thesis
    unfolding r view_inv_active [OF cur']
    using v by (simp add: view_inv_active [OF cur])
qed

lemma view_inv_connect:
  assumes inv: "view_inv a" and fresh: "fresh_id (Connect cid resp) a"
  shows "view_inv (snd (connect cid resp a))"
proof (cases "List.find (\<lambda>c. conn_id c = cid) (connections a)")
  case None
  then show ?thesis using inv by (simp add: connect_def)
next
  case (Some c)
  let ?a1 = "hideModal (setStatus ''connecting'' (''Connecting to '' @ conn_host c @ ''...'')
                        (a\<lparr>currentConnectionId := Some cid\<rparr>))"
  let ?a2 = "?a1\<lparr>calls := calls ?a1 @ [Invoke_ssh_connect (conn_id c)]\<rparr>"
  show ?thesis
  proof (cases resp)
    case (Rejected e)
    let ?a3 = "setStatus ''error'' (''Connection failed: '' @ e) ?a2"
    have "snd (connect cid resp a) = ?a3\<lparr>calls := calls ?a3 @ [Console_error e]\<rparr>"
      using Some Rejected by (simp add: connect_def Let_def)
    moreover have "view_inv (?a3\<lparr>calls := calls ?a3 @ [Console_error e]\<rparr>) = view_inv a"
      by (rule view_inv_cong) simp_all
    ultimately show ?thesis using inv by simp
  next
    case (Resolved sid)
    let ?b = "setStatus ''connected'' (''Connected to '' @ conn_host c) ?a2"
    let ?n = "if conn_name c \<noteq> [] then conn_name c else conn_host c"
    have r: "snd (connect cid resp a) = addSession sid ?n ?b"
      using Some Resolved by (simp add: connect_def Let_def)
    have "view_inv ?b = view_inv a" by (rule view_inv_cong) simp_all
    then have vb: "view_inv ?b" using inv by simp
    have fb: "sid \<notin> sess_id ` set (sessions ?b)" using fresh Resolved by simp
    show ?thesis unfolding r using vb fb by (rule view_inv_addSession)
  qed
qed

lemma view_inv_step:
  assumes "view_inv a" "fresh_id x a"
  shows "view_inv (step x a)"
proof (cases x)
  case (Connect cid resp)
  then show ?thesis using assms by (simp add: view_inv_connect)
next
  case (SwitchTo sid)
  then show ?thesis using assms by (simp add: view_inv_switchSession)
next
  case (CloseSession sid ack)
  then show ?thesis using assms by (simp add: view_inv_closeSession)
qed

section \<open>The view invariant along sequences of whole operations\<close>

text \<open>
  When every operation runs to its end before the next one begins, the view invariant is
  kept. Start in a state where it holds, and run any sequence of connect, switch and
  close operations in which the backend never returns the id of a live session. Then it
  holds in every state the sequence runs through: the session ids are distinct; the
  container of the session that \<open>currentSessionId\<close> names is displayed and every other
  container is hidden; \<open>currentSessionId\<close>, when set, names a record in \<open>sessions\<close>;
  and when it is \<open>null\<close> no container is displayed and the placeholder is shown.
\<close>

theorem view_invariant:
  assumes "view_inv a" and "backend_ids_fresh ops a"
  shows "list_all view_inv (states ops a)"
  using assms
proof (induction ops arbitrary: a)
  case Nil
  then show ?case by simp
next
  case (Cons x xs)
  from Cons.prems have f: "fresh_id x a" and r: "backend_ids_fresh xs (step x a)" by simp_all
  have "view_inv (step x a)" using Cons.prems(1) f by (rule view_inv_step)
  then have "list_all view_inv (states xs (step x a))" using r by (rule Cons.IH)
  with Cons.prems(1) show ?case by simp
qed

theorem view_invariant_witness:
  "view_inv (initial_app [example_connection]) \<and>
   backend_ids_fresh
     [Connect ''c1'' (Resolved ''A''), Connect ''c1'' (Resolved ''B''), SwitchTo ''A'',
      CloseSession ''A'' (Rejected ''gone''), Connect ''c1'' (Rejected ''refused''),
      CloseSession ''B'' (Resolved ())]
     (initial_app [example_connection]) \<and>
   list_all view_inv
     (states
       [Connect ''c1'' (Resolved ''A''), Connect ''c1'' (Resolved ''B''), SwitchTo ''A'',
        CloseSession ''A'' (Rejected ''gone''), Connect ''c1'' (Rejected ''refused''),
        CloseSession ''B'' (Resolved ())]
       (initial_app [example_connection]))"
proof -
  let ?ops = "[Connect ''c1'' (Resolved ''A''), Connect ''c1'' (Resolved ''B''), SwitchTo ''A'',
      CloseSession ''A'' (Rejected ''gone''), Connect ''c1'' (Rejected ''refused''),
      CloseSession ''B'' (Resolved ())]"
  have h1: "view_inv (initial_app [example_connection])" by code_simp
  have h2: "backend_ids_fresh ?ops (initial_app [example_connection])" by code_simp
  from view_invariant [OF h1 h2] h1 h2 show ?thesis by simp
qed


section \<open>Well-formed registries are preserved\<close>

lemma update_session_set:
  assumes "\<forall>s\<in>set xs. P s" "\<And>s. P s \<Longrightarrow> P (f s)"
  shows "\<forall>s\<in>set (update_session k f xs). P s"
  using assms by (induction xs) auto

lemma registry_ok_switchSession:
  assumes "registry_ok a"
  shows "registry_ok (switchSession sid a)"
proof (cases "sid \<in> sess_id ` set (sessions a)")
  case False
  then have "find_session (Some sid) (sessions a) = None" by (auto simp: find_session_None_iff)
  then show ?thesis using assms by (simp add: switchSession_def)
next
  case True
  let ?P = "\<lambda>s. sess_id s \<noteq> [] \<and> terminalManager s = snd (init (sess_id s))"
  have 1: "\<forall>s\<in>set (update_session (currentSessionId a) (saved (fileManager a)) (sessions a)). ?P s"
    using assms unfolding registry_ok_def by (rule update_session_set) simp
  have "\<forall>s\<in>set (switched_sessions sid a). ?P s"
    unfolding switched_sessions_def using 1 by (rule update_session_set) simp
  then show ?thesis by (simp add: registry_ok_def switchSession_sessions [OF True])
qed

lemma registry_ok_closeSession:
  assumes "registry_ok a"
  shows "registry_ok (closeSession ack sid a)"
proof (cases "sid \<in> sess_id ` set (sessions a)")
  case False
  then have "findIndex (sessions a) sid = - 1" by (simp add: findIndex_absent_iff)
  then show ?thesis using assms by (simp add: closeSession_def)
next
  case True
  have t: "registry_ok (torn_down ack sid a)"
    using assms splice1_set [of "nat (findIndex (sessions a) sid)" "sessions a"]
    by (auto simp: registry_ok_def)
  show ?thesis
  proof (cases "sessions (torn_down ack sid a) = []")
    case True
    then show ?thesis
      by (simp add: closeSession_present [OF \<open>sid \<in> sess_id ` set (sessions a)\<close>] registry_ok_def)
  next
    case False
    then show ?thesis
      using registry_ok_switchSession [OF t] by (simp add: closeSession_present [OF True])
  qed
qed

lemma registry_ok_addSession:
  assumes "registry_ok a" "sid \<noteq> []"
  shows "registry_ok (addSession sid name a)"
proof -
  define s where "s = \<lparr>sess_id = sid, sess_name = name, terminalManager = snd (init sid),
               container = \<lparr>el_id = ''term-'' @ sid, style_display = Unset,
                            mounted = (terminals_container (document a) \<noteq> None)\<rparr>,
               fileManagerState = \<lparr>path = ''/'', history = [], historyIndex = None\<rparr>\<rparr>"
  define a1 where "a1 = a\<lparr>sessions := sessions a @ [s], calls := calls a @ fst (init sid)\<rparr>"
  have "registry_ok a1" using assms by (simp add: registry_ok_def a1_def s_def)
  then have "registry_ok (switchSession sid a1)" by (rule registry_ok_switchSession)
  moreover have "sessions (addSession sid name a) = sessions (switchSession sid a1)"
    by (simp add: addSession_eq Let_def s_def a1_def)
  ultimately show ?thesis by (simp add: registry_ok_def)
qed

lemma connect_Resolved:
  assumes "List.find (\<lambda>c. conn_id c = cid) (connections a) = Some c"
  shows "snd (connect cid (Resolved sid) a) =
           addSession sid (if conn_name c \<noteq> [] then conn_name c else conn_host c)
             (setStatus ''connected'' (''Connected to '' @ conn_host c)
               ((hideModal (setStatus ''connecting'' (''Connecting to '' @ conn_host c @ ''...'')
                        (a\<lparr>currentConnectionId := Some cid\<rparr>)))
                \<lparr>calls := calls a @ [Invoke_ssh_connect (conn_id c)]\<rparr>))"
  using assms by (simp add: connect_def Let_def)

lemma registry_ok_step:
  assumes "registry_ok a" "\<And>cid sid. x = Connect cid (Resolved sid) \<Longrightarrow> sid \<noteq> []"
  shows "registry_ok (step x a)"
proof (cases x)
  case (SwitchTo sid)
  then show ?thesis using assms(1) by (simp add: registry_ok_switchSession)
next
  case (CloseSession sid ack)
  then show ?thesis using assms(1) by (simp add: registry_ok_closeSession)
next
  case (Connect cid resp)
  show ?thesis
  proof (cases "List.find (\<lambda>c. conn_id c = cid) (connections a)")
    case None
    then show ?thesis using assms(1) Connect by (simp add: connect_def)
  next
    case (Some c)
    show ?thesis
    proof (cases resp)
      case (Rejected e)
      then have "sessions (step x a) = sessions a"
        using Some Connect by (simp add: connect_def Let_def)
      then show ?thesis using assms(1) by (simp add: registry_ok_def)
    next
      case (Resolved sid)
      then have ne: "sid \<noteq> []" using assms(2) Connect by simp
      show ?thesis
        unfolding Connect Resolved step.simps connect_Resolved [OF Some]
        by (rule registry_ok_addSession [OF _ ne]) (use assms(1) in \<open>simp add: registry_ok_def\<close>)
    qed
  qed
qed

lemma registry_ok_example_abc: "registry_ok example_abc"
  by code_simp


section \<open>C9: operations on an unknown id\<close>

text \<open>
  Claim C9. When no record of \<open>sessions\<close> has the id, \<open>switchSession(id)\<close> and
  \<open>closeSession(id)\<close> return the state they were given, with every field unchanged
  (also the record of calls made), whatever the backend would have answered. Neither
  function has a failing branch.
\<close>

theorem unknown_id_noop:
  assumes "sid \<notin> sess_id ` set (sessions a)"
  shows "switchSession sid a = a \<and> closeSession ack sid a = a"
proof
  have "find_session (Some sid) (sessions a) = None"
    using assms by (auto simp: find_session_None_iff)
  then show "switchSession sid a = a" by (simp add: switchSession_def)
next
  have "findIndex (sessions a) sid = - 1" using assms by (simp add: findIndex_absent_iff)
  then show "closeSession ack sid a = a" by (simp add: closeSession_def)
qed

theorem unknown_id_noop_witness:
  "''Z'' \<notin> sess_id ` set (sessions example_abc) \<and>
   switchSession ''Z'' example_abc = example_abc \<and>
   closeSession (Rejected ''gone'') ''Z'' example_abc = example_abc"
proof -
  have h: "''Z'' \<notin> sess_id ` set (sessions example_abc)" by code_simp
  from unknown_id_noop [OF h, of "Rejected ''gone''"] h show ?thesis by simp
qed


section \<open>C6: routing of data events\<close>

text \<open>
  Claim C6. In a well-formed registry, a data event for an id that is in \<open>sessions\<close>
  makes exactly one call, \<open>write\<close> on the terminal of that session with the payload as
  bytes, and changes nothing else; this does not depend on \<open>currentSessionId\<close>. A data
  event for an id that is not in \<open>sessions\<close> returns the state unchanged. The listener
  has no failing branch.
\<close>

theorem ssh_data_routing:
  assumes "registry_ok a"
  shows "(sid \<in> sess_id ` set (sessions a) \<longrightarrow>
            on_ssh_data sid data a =
              a\<lparr>calls := calls a @ [Terminal_write (Some sid) (map word_of_int data)]\<rparr>) \<and>
         (sid \<notin> sess_id ` set (sessions a) \<longrightarrow> on_ssh_data sid data a = a)"
proof (intro conjI impI)
  assume "sid \<in> sess_id ` set (sessions a)"
  then obtain s where s: "find_session (Some sid) (sessions a) = Some s"
    using find_session_present by blast
  then have "sess_id s = sid" "s \<in> set (sessions a)" by (auto dest: find_session_Some_id)
  then have "terminalManager s = snd (init sid)" using assms by (auto simp: registry_ok_def)
  then show "on_ssh_data sid data a =
              a\<lparr>calls := calls a @ [Terminal_write (Some sid) (map word_of_int data)]\<rparr>"
    using s by (simp add: on_ssh_data_def writeData_def init_def)
next
  assume "sid \<notin> sess_id ` set (sessions a)"
  then have "find_session (Some sid) (sessions a) = None" by (auto simp: find_session_None_iff)
  then show "on_ssh_data sid data a = a" by (simp add: on_ssh_data_def)
qed

theorem ssh_data_routing_witness:
  "registry_ok example_abc \<and> currentSessionId example_abc = Some ''C'' \<and>
   on_ssh_data ''A'' [104, 105, 266] example_abc =
     example_abc\<lparr>calls := calls example_abc @ [Terminal_write (Some ''A'') [104, 105, 10]]\<rparr> \<and>
   on_ssh_data ''Z'' [104, 105, 266] example_abc = example_abc"
proof -
  have h: "registry_ok example_abc" by (rule registry_ok_example_abc)
  have c: "currentSessionId example_abc = Some ''C''" by code_simp
  have m: "''A'' \<in> sess_id ` set (sessions example_abc)" by code_simp
  have n: "''Z'' \<notin> sess_id ` set (sessions example_abc)" by code_simp
  from ssh_data_routing [OF h, of "''A''" "[104, 105, 266]"]
       ssh_data_routing [OF h, of "''Z''" "[104, 105, 266]"] h c m n
  show ?thesis by simp
qed


section \<open>C7: a failed connect\<close>

lemma connect_Rejected:
  assumes "List.find (\<lambda>c. conn_id c = cid) (connections a) = Some c"
  shows "connect cid (Rejected e) a =
           (Resolved (),
            a\<lparr>currentConnectionId := Some cid,
              document := (document a)
                \<lparr>status_bar :=
                   map_option (\<lambda>_. (''status-dot error'', ''Connection failed: '' @ e))
                     (status_bar (document a)),
                 connection_modal := DisplayNone\<rparr>,
              calls := calls a @ [Invoke_ssh_connect (conn_id c), Console_error e]\<rparr>)"
  using assms
  by (simp add: connect_def Let_def setStatus_def hideModal_def option.map_comp comp_def)

text \<open>
  Claim C7, as the code has it. When the profile exists and the backend rejects
  \<open>ssh_connect\<close>, \<open>connect\<close> leaves \<open>sessions\<close>, \<open>currentSessionId\<close>, the directory
  browser and the saved connections as they were, writes the reason to the status bar
  and to the console, and has made the one backend request. It has set
  \<open>currentConnectionId\<close> to the profile's id and hidden the connection modal before the
  request. The rejection is caught: the promise that \<open>connect\<close> returns resolves, so the
  caller receives no error.
\<close>

theorem connect_failure:
  assumes "List.find (\<lambda>c. conn_id c = cid) (connections a) = Some c"
  shows "fst (connect cid (Rejected e) a) = Resolved () \<and>
         sessions (snd (connect cid (Rejected e) a)) = sessions a \<and>
         currentSessionId (snd (connect cid (Rejected e) a)) = currentSessionId a \<and>
         fileManager (snd (connect cid (Rejected e) a)) = fileManager a \<and>
         connections (snd (connect cid (Rejected e) a)) = connections a \<and>
         currentConnectionId (snd (connect cid (Rejected e) a)) = Some cid \<and>
         document (snd (connect cid (Rejected e) a)) =
           (document a)
             \<lparr>status_bar :=
                map_option (\<lambda>_. (''status-dot error'', ''Connection failed: '' @ e))
                  (status_bar (document a)),
              connection_modal := DisplayNone\<rparr> \<and>
         calls (snd (connect cid (Rejected e) a)) =
           calls a @ [Invoke_ssh_connect (conn_id c), Console_error e]"
  by (simp add: connect_Rejected [OF assms])

theorem connect_failure_witness:
  "List.find (\<lambda>c. conn_id c = ''c1'') (connections example_abc) = Some example_connection \<and>
   fst (connect ''c1'' (Rejected ''refused'') example_abc) = Resolved () \<and>
   sessions (snd (connect ''c1'' (Rejected ''refused'') example_abc)) = sessions example_abc \<and>
   currentSessionId (snd (connect ''c1'' (Rejected ''refused'') example_abc)) = Some ''C'' \<and>
   status_bar (document (snd (connect ''c1'' (Rejected ''refused'') example_abc))) =
     Some (''status-dot error'', ''Connection failed: refused'')"
proof -
  have h: "List.find (\<lambda>c. conn_id c = ''c1'') (connections example_abc) = Some example_connection"
    by code_simp
  have c: "currentSessionId example_abc = Some ''C''" by code_simp
  have s: "status_bar (document example_abc) \<noteq> None" by code_simp
  from connect_failure [OF h, of "''refused''"] h c s show ?thesis by auto
qed

text \<open>
  The claim as stated fails: with the backend rejecting the request, the caller of
  \<open>connect\<close> receives a resolved promise, and \<open>currentConnectionId\<close> has changed.
\<close>

theorem connect_failure_counterexample:
  "fst (connect ''c1'' (Rejected ''refused'') (initial_app [example_connection])) = Resolved () \<and>
   currentConnectionId (initial_app [example_connection]) = None \<and>
   currentConnectionId
     (snd (connect ''c1'' (Rejected ''refused'') (initial_app [example_connection]))) = Some ''c1''"
  by code_simp


section \<open>C4: the closed event\<close>

text \<open>
  Claim C4. The listener of \<open>ssh-close\<close> takes the id from the payload and calls
  \<open>closeSession\<close>: for every id, every state and every outcome of the disconnect
  request, the state after the event is the state after \<open>closeSession(id)\<close>. So an id
  that is not in \<open>sessions\<close> leaves the state unchanged, and an id that is in it is
  removed and followed by the session at position \<open>max(0, i - 1)\<close> of the remaining
  order, or by the empty state when none remains.
\<close>

theorem closed_event_is_closeSession:
  "on_ssh_close ack z a = closeSession ack z a \<and>
   (z \<notin> sess_id ` set (sessions a) \<longrightarrow> on_ssh_close ack z a = a) \<and>
   (z \<in> sess_id ` set (sessions a) \<longrightarrow>
      map sess_id (sessions (on_ssh_close ack z a)) =
        splice1 (nat (findIndex (sessions a) z)) (map sess_id (sessions a)) \<and>
      currentSessionId (on_ssh_close ack z a) =
        (if sessions (on_ssh_close ack z a) = [] then None
         else Some (map sess_id (sessions (on_ssh_close ack z a)) !
                      nat (max 0 (findIndex (sessions a) z - 1)))))"
proof (intro conjI impI)
  show "on_ssh_close ack z a = closeSession ack z a" by (simp add: on_ssh_close_def)
next
  assume "z \<notin> sess_id ` set (sessions a)"
  then have "findIndex (sessions a) z = - 1" by (simp add: findIndex_absent_iff)
  then show "on_ssh_close ack z a = a" by (simp add: on_ssh_close_def closeSession_def)
next
  assume p: "z \<in> sess_id ` set (sessions a)"
  show "map sess_id (sessions (on_ssh_close ack z a)) =
        splice1 (nat (findIndex (sessions a) z)) (map sess_id (sessions a))"
    unfolding on_ssh_close_def using p by (rule closeSession_ids)
  show "currentSessionId (on_ssh_close ack z a) =
        (if sessions (on_ssh_close ack z a) = [] then None
         else Some (map sess_id (sessions (on_ssh_close ack z a)) !
                      nat (max 0 (findIndex (sessions a) z - 1))))"
    unfolding on_ssh_close_def using p by (rule closeSession_pointer)
qed

theorem closed_event_is_closeSession_witness:
  "currentSessionId example_abc = Some ''C'' \<and>
   on_ssh_close (Rejected ''gone'') ''C'' example_abc =
     closeSession (Rejected ''gone'') ''C'' example_abc \<and>
   map sess_id (sessions (on_ssh_close (Rejected ''gone'') ''C'' example_abc)) = [''A'', ''B''] \<and>
   currentSessionId (on_ssh_close (Rejected ''gone'') ''C'' example_abc) = Some ''B'' \<and>
   on_ssh_close (Rejected ''gone'') ''Z'' example_abc = example_abc"
proof -
  have c: "currentSessionId example_abc = Some ''C''" by code_simp
  have ids: "map sess_id (sessions example_abc) = [''A'', ''B'', ''C'']" by code_simp
  have i: "findIndex (sessions example_abc) ''C'' = 2" by code_simp
  have m: "''C'' \<in> sess_id ` set (sessions example_abc)" by code_simp
  have n: "''Z'' \<notin> sess_id ` set (sessions example_abc)" by code_simp
  have sp: "splice1 2 [''A'', ''B'', ''C''] = [''A'', ''B'']" by code_simp
  note t = closed_event_is_closeSession [of "Rejected ''gone''" "''C''" example_abc]
  have 1: "on_ssh_close (Rejected ''gone'') ''C'' example_abc =
             closeSession (Rejected ''gone'') ''C'' example_abc"
    using t by blast
  have "map sess_id (sessions (on_ssh_close (Rejected ''gone'') ''C'' example_abc)) =
          splice1 (nat (findIndex (sessions example_abc) ''C'')) (map sess_id (sessions example_abc))"
    using t m by blast
  then have 2: "map sess_id (sessions (on_ssh_close (Rejected ''gone'') ''C'' example_abc)) =
             [''A'', ''B'']"
    unfolding ids i by (simp add: sp)
  then have ne: "sessions (on_ssh_close (Rejected ''gone'') ''C'' example_abc) \<noteq> []" by auto
  have "currentSessionId (on_ssh_close (Rejected ''gone'') ''C'' example_abc) =
        (if sessions (on_ssh_close (Rejected ''gone'') ''C'' example_abc) = [] then None
         else Some (map sess_id (sessions (on_ssh_close (Rejected ''gone'') ''C'' example_abc)) !
                      nat (max 0 (findIndex (sessions example_abc) ''C'' - 1))))"
    using t m by blast
  then have 4: "currentSessionId (on_ssh_close (Rejected ''gone'') ''C'' example_abc) = Some ''B''"
    unfolding 2 i using ne by simp
  have 5: "on_ssh_close (Rejected ''gone'') ''Z'' example_abc = example_abc"
    using closed_event_is_closeSession [of "Rejected ''gone''" "''Z''" example_abc] n by blast
  from c 1 2 4 5 show ?thesis by (intro conjI)
qed


section \<open>C2 and C1: which session is active after a close\<close>

lemma splice1_nth_next:
  assumes "i < length xs" "2 \<le> length xs"
  shows "splice1 i xs ! (i - 1) = xs ! (if i = 0 then 1 else i - 1)"
proof (cases "i = 0")
  case True
  then show ?thesis using assms by (simp add: splice1_def)
next
  case False
  then have "i - 1 < length (take i xs)" using assms by simp
  then have "(take i xs @ drop (Suc i) xs) ! (i - 1) = take i xs ! (i - 1)"
    by (simp only: nth_append if_True)
  then show ?thesis using False by (simp add: splice1_def)
qed

lemma splice1_keeps:
  assumes "i < length xs" "x \<in> set xs" "x \<noteq> xs ! i"
  shows "x \<in> set (splice1 i xs)"
proof -
  from assms(2) have "x \<in> set (take i xs @ xs ! i # drop (Suc i) xs)"
    by (simp only: id_take_nth_drop [OF assms(1), symmetric])
  then have "x \<in> set (take i xs) \<or> x = xs ! i \<or> x \<in> set (drop (Suc i) xs)"
    by (simp only: set_append list.set Un_iff insert_iff)
  with assms(3) have "x \<in> set (take i xs) \<or> x \<in> set (drop (Suc i) xs)" by blast
  then show ?thesis unfolding splice1_def by (simp only: set_append Un_iff)
qed

lemma closeSession_empty_state:
  assumes "sid \<in> sess_id ` set (sessions a)" "sessions (closeSession ack sid a) = []"
  shows "closeSession ack sid a =
           updateTabsUI (handleDisconnect ((torn_down ack sid a)\<lparr>currentSessionId := None\<rparr>))"
proof -
  have "map sess_id (sessions (torn_down ack sid a)) =
        map sess_id (sessions (closeSession ack sid a))"
    using closeSession_ids [OF assms(1), of ack] by (simp add: splice1_ids)
  then have "sessions (torn_down ack sid a) = []" using assms(2) by simp
  then show ?thesis by (simp add: closeSession_present [OF assms(1)])
qed

lemma closeSession_empty_document:
  assumes "sid \<in> sess_id ` set (sessions a)" "sessions (closeSession ack sid a) = []"
  shows "placeholder (document (closeSession ack sid a)) =
           map_option (\<lambda>_. Flex) (placeholder (document a))"
    and "btn_disconnect_disabled (document (closeSession ack sid a)) =
           map_option (\<lambda>_. True) (btn_disconnect_disabled (document a))"
    and "status_bar (document (closeSession ack sid a)) =
           map_option (\<lambda>_. (''status-dot disconnected'', ''Disconnected''))
             (status_bar (document a))"
proof -
  have t: "sessions (torn_down ack sid a) = []"
    using closeSession_ids [OF assms(1), of ack] assms(2) by (simp add: splice1_ids [symmetric])
  note e = closeSession_empty_state [OF assms]
  show "placeholder (document (closeSession ack sid a)) =
           map_option (\<lambda>_. Flex) (placeholder (document a))"
    unfolding e using t
    by (cases "placeholder (document a)")
       (simp_all add: updateTabsUI_placeholder split: option.splits)
  show "btn_disconnect_disabled (document (closeSession ack sid a)) =
           map_option (\<lambda>_. True) (btn_disconnect_disabled (document a))"
    unfolding e by simp
  show "status_bar (document (closeSession ack sid a)) =
           map_option (\<lambda>_. (''status-dot disconnected'', ''Disconnected''))
             (status_bar (document a))"
    unfolding e by simp
qed

text \<open>
  Claim C2. Let the active session sit at position \<open>i\<close> of \<open>sessions\<close> (\<open>i\<close> is what
  \<open>findIndex\<close> returns for its id). After \<open>closeSession\<close> on it, whatever the backend
  answered, the ids are the old ones without position \<open>i\<close>, in the same order. When
  sessions remain, \<open>currentSessionId\<close> is the id at position \<open>max(0, i - 1)\<close> of that
  order. When none remains, \<open>currentSessionId\<close> is \<open>null\<close>, the placeholder (if the
  document has one) is displayed with \<open>'flex'\<close>, the disconnect button is disabled and
  the status bar reads Disconnected.
\<close>

theorem close_active_session:
  assumes "currentSessionId a = Some sid" and "sid \<in> sess_id ` set (sessions a)"
  shows "map sess_id (sessions (closeSession ack sid a)) =
           splice1 (nat (findIndex (sessions a) sid)) (map sess_id (sessions a)) \<and>
         (if sessions (closeSession ack sid a) = []
          then currentSessionId (closeSession ack sid a) = None \<and>
               placeholder (document (closeSession ack sid a)) =
                 map_option (\<lambda>_. Flex) (placeholder (document a)) \<and>
               btn_disconnect_disabled (document (closeSession ack sid a)) =
                 map_option (\<lambda>_. True) (btn_disconnect_disabled (document a)) \<and>
               status_bar (document (closeSession ack sid a)) =
                 map_option (\<lambda>_. (''status-dot disconnected'', ''Disconnected''))
                   (status_bar (document a))
          else currentSessionId (closeSession ack sid a) =
                 Some (map sess_id (sessions (closeSession ack sid a)) !
                         nat (max 0 (findIndex (sessions a) sid - 1))))"
proof (intro conjI)
  show "map sess_id (sessions (closeSession ack sid a)) =
           splice1 (nat (findIndex (sessions a) sid)) (map sess_id (sessions a))"
    using assms(2) by (rule closeSession_ids)
next
  show "if sessions (closeSession ack sid a) = []
          then currentSessionId (closeSession ack sid a) = None \<and>
               placeholder (document (closeSession ack sid a)) =
                 map_option (\<lambda>_. Flex) (placeholder (document a)) \<and>
               btn_disconnect_disabled (document (closeSession ack sid a)) =
                 map_option (\<lambda>_. True) (btn_disconnect_disabled (document a)) \<and>
               status_bar (document (closeSession ack sid a)) =
                 map_option (\<lambda>_. (''status-dot disconnected'', ''Disconnected''))
                   (status_bar (document a))
          else currentSessionId (closeSession ack sid a) =
                 Some (map sess_id (sessions (closeSession ack sid a)) !
                         nat (max 0 (findIndex (sessions a) sid - 1)))"
  proof (cases "sessions (closeSession ack sid a) = []")
    case True
    then show ?thesis
      using closeSession_pointer [OF assms(2), of ack]
        closeSession_empty_document [OF assms(2) True]
      by simp
  next
    case False
    then show ?thesis using closeSession_pointer [OF assms(2), of ack] by simp
  qed
qed


theorem close_active_session_witness:
  "map sess_id (sessions (switchSession ''B'' example_abc)) = [''A'', ''B'', ''C''] \<and>
   currentSessionId (switchSession ''B'' example_abc) = Some ''B'' \<and>
   currentSessionId (closeSession (Resolved ()) ''B'' (switchSession ''B'' example_abc)) = Some ''A'' \<and>
   currentSessionId (switchSession ''A'' example_abc) = Some ''A'' \<and>
   currentSessionId (closeSession (Resolved ()) ''A'' (switchSession ''A'' example_abc)) = Some ''B'' \<and>
   map sess_id (sessions example_a) = [''A''] \<and>
   currentSessionId (closeSession (Resolved ()) ''A'' example_a) = None \<and>
   placeholder (document (closeSession (Resolved ()) ''A'' example_a)) = Some Flex"
proof -
  let ?b = "switchSession ''B'' example_abc"
  let ?a = "switchSession ''A'' example_abc"
  let ?l = "example_a"
  have b_ids: "map sess_id (sessions ?b) = [''A'', ''B'', ''C'']" by code_simp
  have b_cur: "currentSessionId ?b = Some ''B''" by code_simp
  have b_mem: "''B'' \<in> sess_id ` set (sessions ?b)" by code_simp
  have b_i: "findIndex (sessions ?b) ''B'' = 1" by code_simp
  have a_ids: "map sess_id (sessions ?a) = [''A'', ''B'', ''C'']" by code_simp
  have a_cur: "currentSessionId ?a = Some ''A''" by code_simp
  have a_mem: "''A'' \<in> sess_id ` set (sessions ?a)" by code_simp
  have a_i: "findIndex (sessions ?a) ''A'' = 0" by code_simp
  have l_ids: "map sess_id (sessions ?l) = [''A'']" by code_simp
  have l_cur: "currentSessionId ?l = Some ''A''" by code_simp
  have l_mem: "''A'' \<in> sess_id ` set (sessions ?l)" by code_simp
  have l_i: "findIndex (sessions ?l) ''A'' = 0" by code_simp
  have l_ph: "placeholder (document ?l) = Some DisplayNone" by code_simp
  have sp1: "splice1 (Suc 0) [''A'', ''B'', ''C''] = [''A'', ''C'']" by code_simp
  have sp0: "splice1 0 [''A'', ''B'', ''C''] = [''B'', ''C'']" by code_simp
  have spl: "splice1 0 [''A''] = ([] :: string list)" by code_simp
  note tb = close_active_session [OF b_cur b_mem, of "Resolved ()"]
  from tb have r1: "map sess_id (sessions (closeSession (Resolved ()) ''B'' ?b)) = [''A'', ''C'']"
    unfolding b_ids b_i by (simp add: sp1)
  then have n1: "sessions (closeSession (Resolved ()) ''B'' ?b) \<noteq> []" by auto
  from tb n1 have "currentSessionId (closeSession (Resolved ()) ''B'' ?b) =
      Some (map sess_id (sessions (closeSession (Resolved ()) ''B'' ?b)) !
              nat (max 0 (findIndex (sessions ?b) ''B'' - 1)))"
    by (simp only: if_False)
  then have 1: "currentSessionId (closeSession (Resolved ()) ''B'' ?b) = Some ''A''"
    unfolding r1 b_i by simp
  note ta = close_active_session [OF a_cur a_mem, of "Resolved ()"]
  from ta have r2: "map sess_id (sessions (closeSession (Resolved ()) ''A'' ?a)) = [''B'', ''C'']"
    unfolding a_ids a_i by (simp add: sp0)
  then have n2: "sessions (closeSession (Resolved ()) ''A'' ?a) \<noteq> []" by auto
  from ta n2 have "currentSessionId (closeSession (Resolved ()) ''A'' ?a) =
      Some (map sess_id (sessions (closeSession (Resolved ()) ''A'' ?a)) !
              nat (max 0 (findIndex (sessions ?a) ''A'' - 1)))"
    by (simp only: if_False)
  then have 2: "currentSessionId (closeSession (Resolved ()) ''A'' ?a) = Some ''B''"
    unfolding r2 a_i by simp
  note tl = close_active_session [OF l_cur l_mem, of "Resolved ()"]
  from tl have "map sess_id (sessions (closeSession (Resolved ()) ''A'' ?l)) = []"
    unfolding l_ids l_i by (simp add: spl)
  then have e: "sessions (closeSession (Resolved ()) ''A'' ?l) = []" by simp
  from tl e have 3: "currentSessionId (closeSession (Resolved ()) ''A'' ?l) = None"
    and 4: "placeholder (document (closeSession (Resolved ()) ''A'' ?l)) = Some Flex"
    by (simp_all add: l_ph)
  from b_ids b_cur 1 a_cur 2 l_ids 3 4 show ?thesis by (intro conjI)
qed

text \<open>
  Claim C1, as the code has it. \<open>closeSession\<close> does not test whether the session it
  closes is the active one. Let the ids be distinct, let the pointer name a session in
  \<open>sessions\<close>, and let \<open>sid\<close> be another session in \<open>sessions\<close>, at position \<open>i\<close>.
  After \<open>closeSession(sid)\<close> the record of \<open>sid\<close> is gone, the ids of the others keep
  their order, and \<open>currentSessionId\<close> is the id at position \<open>max(0, i - 1)\<close> of the
  remaining order. So the pointer is unchanged exactly when the active session is that
  one: the tab left of the closed tab, or the second tab when the first tab is closed.
\<close>

theorem close_inactive_session:
  assumes d: "distinct (map sess_id (sessions a))"
    and p: "sid \<in> sess_id ` set (sessions a)"
    and cur: "currentSessionId a = Some c"
    and cp: "c \<in> sess_id ` set (sessions a)"
    and ne: "c \<noteq> sid"
  shows "sid \<notin> sess_id ` set (sessions (closeSession ack sid a)) \<and>
         map sess_id (sessions (closeSession ack sid a)) =
           splice1 (nat (findIndex (sessions a) sid)) (map sess_id (sessions a)) \<and>
         currentSessionId (closeSession ack sid a) =
           Some (map sess_id (sessions (closeSession ack sid a)) !
                   nat (max 0 (findIndex (sessions a) sid - 1))) \<and>
         (currentSessionId (closeSession ack sid a) = currentSessionId a) =
           (map sess_id (sessions a) !
              (if findIndex (sessions a) sid = 0 then 1
               else nat (findIndex (sessions a) sid - 1)) = c)"
proof -
  let ?i = "findIndex (sessions a) sid"
  let ?ids = "map sess_id (sessions a)"
  let ?b = "closeSession ack sid a"
  have "?i \<noteq> - 1" using p by (simp add: findIndex_absent_iff)
  from findIndex_present [OF this]
  have i0: "0 \<le> ?i" and il: "nat ?i < length ?ids" and ii: "?ids ! nat ?i = sid" by simp_all
  have ids: "map sess_id (sessions ?b) = splice1 (nat ?i) ?ids" using p by (rule closeSession_ids)
  have "?ids ! nat ?i \<notin> set (splice1 (nat ?i) ?ids)" using d il by (rule splice1_removes)
  then have gone: "sid \<notin> set (map sess_id (sessions ?b))" unfolding ids ii .
  have "c \<in> set ?ids" using cp by simp
  then have kept: "c \<in> set (splice1 (nat ?i) ?ids)"
    using il ne by (intro splice1_keeps) (simp_all add: ii)
  then have nonempty: "sessions ?b \<noteq> []" using ids by auto
  have ptr: "currentSessionId ?b = Some (map sess_id (sessions ?b) ! nat (max 0 (?i - 1)))"
    using closeSession_pointer [OF p, of ack] nonempty by simp
  have len: "2 \<le> length ?ids"
  proof -
    have "length (splice1 (nat ?i) ?ids) = length ?ids - 1" using il by (rule splice1_length)
    moreover have "0 < length (splice1 (nat ?i) ?ids)" using kept by (cases "splice1 (nat ?i) ?ids") auto
    ultimately show ?thesis by simp
  qed
  have j: "nat (max 0 (?i - 1)) = nat ?i - 1" using i0 by auto
  have nx: "splice1 (nat ?i) ?ids ! (nat ?i - 1) = ?ids ! (if nat ?i = 0 then 1 else nat ?i - 1)"
    using il len by (rule splice1_nth_next)
  have cond: "(if nat ?i = 0 then 1 else nat ?i - 1) = (if ?i = 0 then 1 else nat (?i - 1))"
    using i0 by auto
  have same: "(currentSessionId ?b = currentSessionId a) =
        (?ids ! (if ?i = 0 then 1 else nat (?i - 1)) = c)"
    unfolding ptr cur ids j nx cond by simp
  have gone': "sid \<notin> sess_id ` set (sessions ?b)" using gone by simp
  from gone' ids ptr same show ?thesis by (intro conjI)
qed

theorem close_inactive_session_witness:
  "distinct (map sess_id (sessions example_abc)) \<and>
   ''A'' \<in> sess_id ` set (sessions example_abc) \<and>
   currentSessionId example_abc = Some ''C'' \<and>
   ''C'' \<in> sess_id ` set (sessions example_abc) \<and>
   ''A'' \<notin> sess_id ` set (sessions (closeSession (Rejected ''gone'') ''A'' example_abc)) \<and>
   map sess_id (sessions (closeSession (Rejected ''gone'') ''A'' example_abc)) = [''B'', ''C''] \<and>
   currentSessionId (closeSession (Rejected ''gone'') ''A'' example_abc) = Some ''B''"
proof -
  have d: "distinct (map sess_id (sessions example_abc))" by code_simp
  have p: "''A'' \<in> sess_id ` set (sessions example_abc)" by code_simp
  have cur: "currentSessionId example_abc = Some ''C''" by code_simp
  have cp: "''C'' \<in> sess_id ` set (sessions example_abc)" by code_simp
  have ne: "''C'' \<noteq> ''A''" by simp
  have ids: "map sess_id (sessions example_abc) = [''A'', ''B'', ''C'']" by code_simp
  have i: "findIndex (sessions example_abc) ''A'' = 0" by code_simp
  have sp0: "splice1 0 [''A'', ''B'', ''C''] = [''B'', ''C'']" by code_simp
  note t = close_inactive_session [OF d p cur cp ne, of "Rejected ''gone''"]
  from t have 1: "''A'' \<notin> sess_id ` set (sessions (closeSession (Rejected ''gone'') ''A'' example_abc))"
    by blast
  from t have 2: "map sess_id (sessions (closeSession (Rejected ''gone'') ''A'' example_abc)) =
      [''B'', ''C'']"
    unfolding ids i by (simp add: sp0)
  from t have 3: "currentSessionId (closeSession (Rejected ''gone'') ''A'' example_abc) = Some ''B''"
    unfolding 2 i by simp
  from d p cur cp 1 2 3 show ?thesis by (intro conjI)
qed

text \<open>
  The claim as stated fails: with tabs \<open>[A, B, C]\<close> and \<open>C\<close> active, closing \<open>A\<close>
  activates \<open>B\<close>.
\<close>

theorem close_inactive_session_counterexample:
  "map sess_id (sessions example_abc) = [''A'', ''B'', ''C''] \<and>
   currentSessionId example_abc = Some ''C'' \<and>
   currentSessionId (closeSession (Resolved ()) ''A'' example_abc) = Some ''B''"
  by code_simp


section \<open>What switchSession does to the directory browser and which calls it makes\<close>

lemma new_session_snapshot:
  "fileManagerState (new_session a s) =
     (if currentSessionId a = Some (sess_id s) then getState (fileManager a)
      else fileManagerState s)"
  by (simp add: new_session_def)

lemma focus_terminal_calls:
  "calls (focus_terminal s a) =
     calls a @ (if terminal (terminalManager s)
                then Terminal_focus (tm_sessionId (terminalManager s)) # fit (terminalManager s)
                else [])"
  by (simp add: focus_terminal_def)

lemma switchSession_browser:
  assumes "find_session (Some sid) (sessions a) = Some s"
  shows "currentPath (fileManager (switchSession sid a)) =
           (if path (fileManagerState (new_session a s)) = [] then ''/''
            else path (fileManagerState (new_session a s)))"
    and "fm_history (fileManager (switchSession sid a)) =
           history (fileManagerState (new_session a s))"
    and "fm_historyIndex (fileManager (switchSession sid a)) =
           (case historyIndex (fileManagerState (new_session a s)) of
              Some n \<Rightarrow> n | None \<Rightarrow> - 1)"
  by (simp_all add: switchSession_present [OF assms])

lemma switchSession_calls:
  assumes "find_session (Some sid) (sessions a) = Some s"
  shows "calls (switchSession sid a) =
           calls a @
           (if sid \<noteq> []
            then [Invoke_sftp_list (currentPath (fileManager (switchSession sid a)))]
            else []) @
           (if terminal (terminalManager s)
            then Terminal_focus (tm_sessionId (terminalManager s)) # fit (terminalManager s)
            else [])"
proof -
  have tm: "terminalManager (new_session a s) = terminalManager s" by simp
  show ?thesis
    unfolding switchSession_browser(1) [OF assms]
    unfolding switchSession_present [OF assms] focus_terminal_calls tm
    by (simp add: setState_calls)
qed

lemma update_session_twice:
  assumes "\<And>s. sess_id (f s) = sess_id s"
  shows "update_session k g (update_session k f xs) = update_session k (\<lambda>s. g (f s)) xs"
  using assms by (induction xs) auto

lemma update_session_map_id:
  assumes "\<forall>s\<in>set xs. Some (sess_id s) = k \<longrightarrow> h (f s) = h s"
  shows "map h (update_session k f xs) = map h xs"
  using assms by (induction xs) auto

lemma registry_ok_found:
  assumes "registry_ok a" "find_session (Some sid) (sessions a) = Some s"
  shows "sid \<noteq> []" and "terminalManager s = snd (init sid)"
proof -
  have "sess_id s = sid" "s \<in> set (sessions a)"
    using assms(2) by (auto dest: find_session_Some_id)
  then show "sid \<noteq> []" and "terminalManager s = snd (init sid)"
    using assms(1) by (auto simp: registry_ok_def)
qed

lemma switchSession_calls_ok:
  assumes "registry_ok a" "find_session (Some sid) (sessions a) = Some s"
  shows "calls (switchSession sid a) =
           calls a @ [Invoke_sftp_list (currentPath (fileManager (switchSession sid a))),
                      Terminal_focus (Some sid), FitAddon_fit (Some sid)]"
  using registry_ok_found [OF assms]
  by (simp add: switchSession_calls [OF assms(2)] init_def fit_def)


section \<open>C10: switching to the session that is already active\<close>

lemma shown_saved:
  "shown (saved fm s) =
     s\<lparr>container := (container s)\<lparr>style_display := Block\<rparr>, fileManagerState := getState fm\<rparr>"
  by (simp add: shown_def saved_def)

text \<open>
  Claim C10. Let the registry be well formed and let \<open>x\<close> be the active session, in
  \<open>sessions\<close>. Then \<open>switchSession(x)\<close> is not a no-op. It overwrites the
  \<open>fileManagerState\<close> of \<open>x\<close> with the directory browser's state and sets its container to
  \<open>'block'\<close>, leaving every other record as it was; when the view invariant held, no
  container changes at all. It restores the browser from that fresh snapshot, so history
  and history index are as before and the path is the browser's path (with \<open>'/'\<close> in
  place of an empty path). It starts exactly three calls: one directory fetch at the
  browser's path, and focus and fit on the terminal of \<open>x\<close>. \<open>currentSessionId\<close> is
  still \<open>x\<close>.
\<close>

theorem switch_to_active_session:
  assumes "registry_ok a" and "currentSessionId a = Some x"
    and "x \<in> sess_id ` set (sessions a)"
  shows "currentSessionId (switchSession x a) = Some x \<and>
         sessions (switchSession x a) =
           update_session (Some x)
             (\<lambda>s. s\<lparr>container := (container s)\<lparr>style_display := Block\<rparr>,
                     fileManagerState := getState (fileManager a)\<rparr>)
             (sessions a) \<and>
         (view_inv a \<longrightarrow>
            map container (sessions (switchSession x a)) = map container (sessions a)) \<and>
         currentPath (fileManager (switchSession x a)) =
           (if currentPath (fileManager a) = [] then ''/'' else currentPath (fileManager a)) \<and>
         fm_history (fileManager (switchSession x a)) = fm_history (fileManager a) \<and>
         fm_historyIndex (fileManager (switchSession x a)) = fm_historyIndex (fileManager a) \<and>
         calls (switchSession x a) =
           calls a @ [Invoke_sftp_list (currentPath (fileManager (switchSession x a))),
                      Terminal_focus (Some x), FitAddon_fit (Some x)] \<and>
         switchSession x a \<noteq> a"
proof -
  obtain s where s: "find_session (Some x) (sessions a) = Some s"
    using assms(3) find_session_present by blast
  have sx: "sess_id s = x" using s by (auto dest: find_session_Some_id)
  have snap: "fileManagerState (new_session a s) = getState (fileManager a)"
    using assms(2) by (simp add: new_session_snapshot sx)
  have 1: "currentSessionId (switchSession x a) = Some x"
    using assms(3) by (rule switchSession_pointer)
  have 2: "sessions (switchSession x a) =
           update_session (Some x)
             (\<lambda>s. s\<lparr>container := (container s)\<lparr>style_display := Block\<rparr>,
                     fileManagerState := getState (fileManager a)\<rparr>)
             (sessions a)"
    unfolding switchSession_sessions [OF assms(3)] switched_sessions_def assms(2)
    by (simp add: update_session_twice shown_saved)
  have 3: "map container (sessions (switchSession x a)) = map container (sessions a)"
    if inv: "view_inv a"
    unfolding 2
  proof (rule update_session_map_id, intro ballI impI)
    fix t
    assume t: "t \<in> set (sessions a)" and k: "Some (sess_id t) = Some x"
    have "style_display (container t) = Block"
      using inv t k assms(2) by (auto simp: view_inv_def displays_ok_def)
    then show "container (t\<lparr>container := (container t)\<lparr>style_display := Block\<rparr>,
                     fileManagerState := getState (fileManager a)\<rparr>) = container t"
      by (cases "container t") simp
  qed
  have 4: "currentPath (fileManager (switchSession x a)) =
           (if currentPath (fileManager a) = [] then ''/'' else currentPath (fileManager a))"
    by (simp add: switchSession_browser(1) [OF s] snap getState_def)
  have 5: "fm_history (fileManager (switchSession x a)) = fm_history (fileManager a)"
    by (simp add: switchSession_browser(2) [OF s] snap getState_def)
  have 6: "fm_historyIndex (fileManager (switchSession x a)) = fm_historyIndex (fileManager a)"
    by (simp add: switchSession_browser(3) [OF s] snap getState_def)
  have 7: "calls (switchSession x a) =
           calls a @ [Invoke_sftp_list (currentPath (fileManager (switchSession x a))),
                      Terminal_focus (Some x), FitAddon_fit (Some x)]"
    using assms(1) s by (rule switchSession_calls_ok)
  have "length (calls (switchSession x a)) \<noteq> length (calls a)" unfolding 7 by simp
  then have 8: "switchSession x a \<noteq> a" by auto
  from 1 2 3 4 5 6 7 8 show ?thesis by blast
qed

theorem switch_to_active_session_witness:
  "registry_ok example_browsing \<and> view_inv example_browsing \<and>
   currentSessionId example_browsing = Some ''A'' \<and>
   ''A'' \<in> sess_id ` set (sessions example_browsing) \<and>
   map_option (path \<circ> fileManagerState)
     (find_session (Some ''A'') (sessions example_browsing)) = Some ''/'' \<and>
   map_option (path \<circ> fileManagerState)
     (find_session (Some ''A'') (sessions (switchSession ''A'' example_browsing))) =
     Some ''/srv/www'' \<and>
   currentSessionId (switchSession ''A'' example_browsing) = Some ''A'' \<and>
   map container (sessions (switchSession ''A'' example_browsing)) =
     map container (sessions example_browsing) \<and>
   calls (switchSession ''A'' example_browsing) =
     calls example_browsing @
       [Invoke_sftp_list ''/srv/www'', Terminal_focus (Some ''A''), FitAddon_fit (Some ''A'')]"
proof -
  have r: "registry_ok example_browsing" by code_simp
  have v: "view_inv example_browsing" by code_simp
  have c: "currentSessionId example_browsing = Some ''A''" by code_simp
  have m: "''A'' \<in> sess_id ` set (sessions example_browsing)" by code_simp
  have p: "currentPath (fileManager example_browsing) = ''/srv/www''" by code_simp
  have before: "map_option (path \<circ> fileManagerState)
     (find_session (Some ''A'') (sessions example_browsing)) = Some ''/''" by code_simp
  have after: "map_option (path \<circ> fileManagerState)
     (find_session (Some ''A'') (sessions (switchSession ''A'' example_browsing))) =
     Some ''/srv/www''" by code_simp
  note t = switch_to_active_session [OF r c m]
  from t have 1: "currentSessionId (switchSession ''A'' example_browsing) = Some ''A''" by blast
  from t v have 2: "map container (sessions (switchSession ''A'' example_browsing)) =
     map container (sessions example_browsing)" by blast
  from t have "currentPath (fileManager (switchSession ''A'' example_browsing)) = ''/srv/www''"
    unfolding p by simp
  with t have 3: "calls (switchSession ''A'' example_browsing) =
     calls example_browsing @
       [Invoke_sftp_list ''/srv/www'', Terminal_focus (Some ''A''), FitAddon_fit (Some ''A'')]"
    by simp
  from r v c m before after 1 2 3 show ?thesis by (intro conjI)
qed


section \<open>C8: teardown when the disconnect request fails\<close>

lemma find_session_nth:
  "find_session (Some sid) xs = Some s \<Longrightarrow> xs ! nat (findIndex xs sid) = s"
proof (induction xs)
  case Nil
  then show ?case by (simp add: find_session_def)
next
  case (Cons t xs)
  show ?case
  proof (cases "sess_id t = sid")
    case True
    with Cons.prems show ?thesis by (simp add: find_session_def)
  next
    case False
    with Cons.prems have f: "find_session (Some sid) xs = Some s" by (simp add: find_session_def)
    then have "sid \<in> sess_id ` set xs" by (auto dest: find_session_Some_id)
    then have ne: "findIndex xs sid \<noteq> - 1" by (simp add: findIndex_absent_iff)
    from findIndex_present [OF ne] have "0 \<le> findIndex xs sid" by simp
    then have "nat (findIndex xs sid + 1) = Suc (nat (findIndex xs sid))" by simp
    then show ?thesis using False ne Cons.IH [OF f] by (simp add: Let_def)
  qed
qed

lemma switchSession_calls_prefix:
  "\<exists>ys. calls (switchSession k a) = calls a @ ys"
proof (cases "find_session (Some k) (sessions a)")
  case None
  then show ?thesis by (simp add: switchSession_def)
next
  case (Some s)
  show ?thesis unfolding switchSession_calls [OF Some] by blast
qed

lemma setStatus_frame:
  "setStatus st m (a\<lparr>calls := cs\<rparr>) = (setStatus st m a)\<lparr>calls := cs\<rparr>"
  by (simp add: setStatus_def)

lemma updateTabsUI_frame:
  "updateTabsUI (a\<lparr>calls := cs\<rparr>) = (updateTabsUI a)\<lparr>calls := cs\<rparr>"
  by (simp add: updateTabsUI_def split: option.splits)

lemma setState_frame:
  "setState st k (a\<lparr>calls := cs\<rparr>) =
     (setState st k a)\<lparr>calls := cs @ drop (length (calls a)) (calls (setState st k a))\<rparr>"
  by (simp add: setState_def loadDirectory_def Let_def)

lemma focus_terminal_frame:
  "focus_terminal s (a\<lparr>calls := cs\<rparr>) =
     (focus_terminal s a)\<lparr>calls := cs @ drop (length (calls a)) (calls (focus_terminal s a))\<rparr>"
  by (simp add: focus_terminal_def)

lemma switchSession_calls_frame:
  "switchSession k (a\<lparr>calls := cs\<rparr>) =
     (switchSession k a)\<lparr>calls := cs @ drop (length (calls a)) (calls (switchSession k a))\<rparr>"
proof (cases "find_session (Some k) (sessions a)")
  case None
  then show ?thesis by (simp add: switchSession_def)
next
  case (Some s)
  have s': "find_session (Some k) (sessions (a\<lparr>calls := cs\<rparr>)) = Some s" using Some by simp
  have n: "new_session (a\<lparr>calls := cs\<rparr>) s = new_session a s" by (simp add: new_session_def)
  let ?st = "fileManagerState (new_session a s)"
  let ?msg = "''Connected to '' @ sess_name s"
  let ?X0 = "a\<lparr>currentSessionId := Some k, sessions := switched_sessions k a\<rparr>"
  let ?X1 = "setState ?st k ?X0"
  let ?X3 = "updateTabsUI (setStatus ''connected'' ?msg ?X1)"
  let ?X4 = "focus_terminal (new_session a s) ?X3"
  have x0: "(a\<lparr>calls := cs\<rparr>)\<lparr>currentSessionId := Some k,
              sessions := switched_sessions k (a\<lparr>calls := cs\<rparr>)\<rparr> = ?X0\<lparr>calls := cs\<rparr>"
    by (simp add: switched_sessions_def)
  have "\<exists>d. calls ?X1 = calls a @ d"
    by (cases "k = []") (simp_all add: setState_calls)
  then obtain d where d: "calls ?X1 = calls a @ d" by blast
  have c3: "calls ?X3 = calls a @ d" using d by simp
  have "\<exists>f. calls ?X4 = calls ?X3 @ f"
    unfolding focus_terminal_calls by blast
  then obtain f where f: "calls ?X4 = calls ?X3 @ f" by blast
  have l: "switchSession k a = ?X4" by (simp add: switchSession_present [OF Some])
  have "switchSession k (a\<lparr>calls := cs\<rparr>) =
          focus_terminal (new_session a s)
            (updateTabsUI (setStatus ''connected'' ?msg (setState ?st k (?X0\<lparr>calls := cs\<rparr>))))"
    unfolding switchSession_present [OF s'] n x0 ..
  also have "setState ?st k (?X0\<lparr>calls := cs\<rparr>) = ?X1\<lparr>calls := cs @ d\<rparr>"
    unfolding setState_frame d by simp
  also have "updateTabsUI (setStatus ''connected'' ?msg (?X1\<lparr>calls := cs @ d\<rparr>)) =
             ?X3\<lparr>calls := cs @ d\<rparr>"
    unfolding setStatus_frame updateTabsUI_frame ..
  also have "focus_terminal (new_session a s) (?X3\<lparr>calls := cs @ d\<rparr>) =
             ?X4\<lparr>calls := (cs @ d) @ f\<rparr>"
    unfolding focus_terminal_frame f by simp
  also have "(cs @ d) @ f = cs @ drop (length (calls a)) (calls ?X4)"
    unfolding f c3 by simp
  finally show ?thesis unfolding l .
qed

lemma closeSession_calls_prefix:
  assumes "find_session (Some sid) (sessions a) = Some s"
  shows "\<exists>ys. calls (closeSession ack sid a) = calls a @ teardown_calls ack s @ ys"
proof -
  have p: "sid \<in> sess_id ` set (sessions a)" using assms by (auto dest: find_session_Some_id)
  have t: "calls (torn_down ack sid a) = calls a @ teardown_calls ack s"
    by (simp add: torn_down_def find_session_nth [OF assms])
  show ?thesis
  proof (cases "sessions (torn_down ack sid a) = []")
    case True
    then have "calls (closeSession ack sid a) = calls (torn_down ack sid a)"
      by (simp add: closeSession_present [OF p])
    then show ?thesis unfolding t by simp
  next
    case False
    let ?n = "sess_id (sessions (torn_down ack sid a) ! nat (max 0 (findIndex (sessions a) sid - 1)))"
    have "closeSession ack sid a = switchSession ?n (torn_down ack sid a)"
      using False by (simp add: closeSession_present [OF p])
    moreover obtain ys where "calls (switchSession ?n (torn_down ack sid a)) =
        calls (torn_down ack sid a) @ ys"
      using switchSession_calls_prefix by blast
    ultimately show ?thesis unfolding t by simp
  qed
qed

lemma torn_down_Rejected:
  "torn_down (Rejected e) sid a =
     (torn_down (Resolved ()) sid a)
       \<lparr>calls := calls a @ teardown_calls (Rejected e) (sessions a ! nat (findIndex (sessions a) sid))\<rparr>"
  by (simp add: torn_down_def)

lemma closeSession_Rejected:
  assumes "find_session (Some sid) (sessions a) = Some s"
  shows "closeSession (Rejected e) sid a =
           (closeSession (Resolved ()) sid a)
             \<lparr>calls := calls a @ Invoke_ssh_disconnect sid #
                        Console_error (''Disconnect error: '' @ e) #
                        drop (Suc (length (calls a))) (calls (closeSession (Resolved ()) sid a))\<rparr>"
proof -
  have p: "sid \<in> sess_id ` set (sessions a)" using assms by (auto dest: find_session_Some_id)
  have sx: "sess_id s = sid" using assms by (auto dest: find_session_Some_id)
  let ?T = "torn_down (Resolved ()) sid a"
  let ?rest = "fst (destroy (terminalManager s)) @ [Element_remove (el_id (container s))]"
  have nth: "sessions a ! nat (findIndex (sessions a) sid) = s" using assms by (rule find_session_nth)
  have cT: "calls ?T = calls a @ Invoke_ssh_disconnect sid # ?rest"
    by (simp add: torn_down_def teardown_calls_def nth sx)
  have tR: "teardown_calls (Rejected e) s =
        Invoke_ssh_disconnect sid # Console_error (''Disconnect error: '' @ e) # ?rest"
    by (simp add: teardown_calls_def sx)
  have sess: "sessions (torn_down (Rejected e) sid a) = sessions ?T" by simp
  show ?thesis
  proof (cases "sessions ?T = []")
    case True
    have "drop (Suc (length (calls a))) (calls (closeSession (Resolved ()) sid a)) = ?rest"
      using True by (simp add: closeSession_present [OF p] cT)
    then show ?thesis
      using True
      by (simp add: closeSession_present [OF p] torn_down_def teardown_calls_def nth sx
            updateTabsUI_def handleDisconnect_def setStatus_def clear_def Let_def
            split: option.splits)
  next
    case False
    let ?n = "sess_id (sessions ?T ! nat (max 0 (findIndex (sessions a) sid - 1)))"
    obtain ys where ys: "calls (switchSession ?n ?T) = calls ?T @ ys"
      using switchSession_calls_prefix by blast
    have ok: "closeSession (Resolved ()) sid a = switchSession ?n ?T"
      using False by (simp add: closeSession_present [OF p])
    have "closeSession (Rejected e) sid a = switchSession ?n (torn_down (Rejected e) sid a)"
      using False by (simp add: closeSession_present [OF p])
    also have "\<dots> = switchSession ?n (?T\<lparr>calls := calls a @ teardown_calls (Rejected e) s\<rparr>)"
      by (simp add: torn_down_Rejected nth)
    also have "\<dots> = (switchSession ?n ?T)
        \<lparr>calls := (calls a @ teardown_calls (Rejected e) s) @
                   drop (length (calls ?T)) (calls (switchSession ?n ?T))\<rparr>"
      by (rule switchSession_calls_frame)
    also have "(calls a @ teardown_calls (Rejected e) s) @
                   drop (length (calls ?T)) (calls (switchSession ?n ?T)) =
               calls a @ Invoke_ssh_disconnect sid # Console_error (''Disconnect error: '' @ e) #
                 drop (Suc (length (calls a))) (calls (switchSession ?n ?T))"
      unfolding ys tR unfolding cT by simp
    finally show ?thesis unfolding ok .
  qed
qed

text \<open>
  Claim C8. Let the registry be well formed with distinct ids, and let \<open>s\<close> be the
  record of \<open>sid\<close>. When the disconnect request is rejected, \<open>closeSession(sid)\<close> still
  removes the record from \<open>sessions\<close>, and its first calls are: the request, the console
  entry for the rejection, then the teardown of the terminal manager (observer
  disconnected, terminal disposed) and the removal of the container from the document.
  The rejection has no other effect: the resulting state is the state that a successful
  request gives, with the one console entry added to the calls.
\<close>

theorem teardown_despite_notify_failure:
  assumes "registry_ok a" and "distinct (map sess_id (sessions a))"
    and "find_session (Some sid) (sessions a) = Some s"
  shows "sid \<notin> sess_id ` set (sessions (closeSession (Rejected e) sid a)) \<and>
         take 5 (drop (length (calls a)) (calls (closeSession (Rejected e) sid a))) =
           [Invoke_ssh_disconnect sid, Console_error (''Disconnect error: '' @ e),
            ResizeObserver_disconnect (Some sid), Terminal_dispose (Some sid),
            Element_remove (el_id (container s))] \<and>
         closeSession (Rejected e) sid a =
           (closeSession (Resolved ()) sid a)
             \<lparr>calls := calls a @ Invoke_ssh_disconnect sid #
                        Console_error (''Disconnect error: '' @ e) #
                        drop (Suc (length (calls a))) (calls (closeSession (Resolved ()) sid a))\<rparr>"
proof (intro conjI)
  let ?i = "findIndex (sessions a) sid"
  let ?ids = "map sess_id (sessions a)"
  have p: "sid \<in> sess_id ` set (sessions a)" using assms(3) by (auto dest: find_session_Some_id)
  then have "?i \<noteq> - 1" by (simp add: findIndex_absent_iff)
  from findIndex_present [OF this]
  have il: "nat ?i < length ?ids" and ii: "?ids ! nat ?i = sid" by simp_all
  have "?ids ! nat ?i \<notin> set (splice1 (nat ?i) ?ids)" using assms(2) il by (rule splice1_removes)
  then have "sid \<notin> set (map sess_id (sessions (closeSession (Rejected e) sid a)))"
    unfolding closeSession_ids [OF p] ii .
  then show "sid \<notin> sess_id ` set (sessions (closeSession (Rejected e) sid a))" by simp
next
  have tm: "terminalManager s = snd (init sid)" and sx: "sess_id s = sid"
    using registry_ok_found [OF assms(1,3)] assms(3) by (auto dest: find_session_Some_id)
  have tc: "teardown_calls (Rejected e) s =
           [Invoke_ssh_disconnect sid, Console_error (''Disconnect error: '' @ e),
            ResizeObserver_disconnect (Some sid), Terminal_dispose (Some sid),
            Element_remove (el_id (container s))]"
    by (simp add: teardown_calls_def destroy_def tm init_def sx)
  obtain ys where "calls (closeSession (Rejected e) sid a) =
      calls a @ teardown_calls (Rejected e) s @ ys"
    using closeSession_calls_prefix [OF assms(3)] by blast
  then show "take 5 (drop (length (calls a)) (calls (closeSession (Rejected e) sid a))) =
           [Invoke_ssh_disconnect sid, Console_error (''Disconnect error: '' @ e),
            ResizeObserver_disconnect (Some sid), Terminal_dispose (Some sid),
            Element_remove (el_id (container s))]"
    unfolding tc by simp
next
  show "closeSession (Rejected e) sid a =
           (closeSession (Resolved ()) sid a)
             \<lparr>calls := calls a @ Invoke_ssh_disconnect sid #
                        Console_error (''Disconnect error: '' @ e) #
                        drop (Suc (length (calls a))) (calls (closeSession (Resolved ()) sid a))\<rparr>"
    using assms(3) by (rule closeSession_Rejected)
qed


theorem teardown_despite_notify_failure_witness:
  "registry_ok example_abc \<and> distinct (map sess_id (sessions example_abc)) \<and>
   find_session (Some ''B'') (sessions example_abc) = Some (sessions example_abc ! 1) \<and>
   ''B'' \<notin> sess_id ` set (sessions (closeSession (Rejected ''io'') ''B'' example_abc)) \<and>
   take 5 (drop (length (calls example_abc))
             (calls (closeSession (Rejected ''io'') ''B'' example_abc))) =
     [Invoke_ssh_disconnect ''B'', Console_error ''Disconnect error: io'',
      ResizeObserver_disconnect (Some ''B''), Terminal_dispose (Some ''B''),
      Element_remove ''term-B''] \<and>
   sessions (closeSession (Rejected ''io'') ''B'' example_abc) =
     sessions (closeSession (Resolved ()) ''B'' example_abc) \<and>
   currentSessionId (closeSession (Rejected ''io'') ''B'' example_abc) =
     currentSessionId (closeSession (Resolved ()) ''B'' example_abc)"
proof -
  have r: "registry_ok example_abc" by (rule registry_ok_example_abc)
  have d: "distinct (map sess_id (sessions example_abc))" by code_simp
  have f: "find_session (Some ''B'') (sessions example_abc) = Some (sessions example_abc ! 1)"
    by code_simp
  have el: "el_id (container (sessions example_abc ! 1)) = ''term-B''" by code_simp
  note t = teardown_despite_notify_failure [OF r d f, of "''io''"]
  from t have 1: "''B'' \<notin> sess_id ` set (sessions (closeSession (Rejected ''io'') ''B'' example_abc))"
    by blast
  from t [THEN conjunct2, THEN conjunct1] have 2: "take 5 (drop (length (calls example_abc))
             (calls (closeSession (Rejected ''io'') ''B'' example_abc))) =
     [Invoke_ssh_disconnect ''B'', Console_error ''Disconnect error: io'',
      ResizeObserver_disconnect (Some ''B''), Terminal_dispose (Some ''B''),
      Element_remove ''term-B'']"
    unfolding el by simp
  from t have e: "closeSession (Rejected ''io'') ''B'' example_abc =
           (closeSession (Resolved ()) ''B'' example_abc)
             \<lparr>calls := calls example_abc @ Invoke_ssh_disconnect ''B'' #
                        Console_error (''Disconnect error: '' @ ''io'') #
                        drop (Suc (length (calls example_abc)))
                          (calls (closeSession (Resolved ()) ''B'' example_abc))\<rparr>"
    by blast
  have 3: "sessions (closeSession (Rejected ''io'') ''B'' example_abc) =
     sessions (closeSession (Resolved ()) ''B'' example_abc)"
    by (subst e) simp
  have 4: "currentSessionId (closeSession (Rejected ''io'') ''B'' example_abc) =
     currentSessionId (closeSession (Resolved ()) ''B'' example_abc)"
    by (subst e) simp
  from r d f 1 2 3 4 show ?thesis by (intro conjI)
qed


section \<open>The split functions agree with the whole ones\<close>

lemma splice1_Cons [simp]:
  "splice1 0 (x # xs) = xs" "splice1 (Suc n) (x # xs) = x # splice1 n xs"
  by (simp_all add: splice1_def)

lemma splice1_Nil [simp]: "splice1 n [] = []"
  by (simp add: splice1_def)

lemma find_session_at_index:
  assumes "findIndex xs k \<noteq> - 1"
  shows "find_session (Some k) xs = Some (xs ! nat (findIndex xs k))"
proof -
  have "k \<in> sess_id ` set xs" using assms by (simp add: findIndex_absent_iff)
  then obtain s where s: "find_session (Some k) xs = Some s" using find_session_present by blast
  then show ?thesis using find_session_nth [OF s] by simp
qed

lemma update_session_at_index:
  assumes "findIndex xs k \<noteq> - 1"
  shows "update_session (Some k) f xs ! nat (findIndex xs k) = f (xs ! nat (findIndex xs k)) \<and>
         splice1 (nat (findIndex xs k)) (update_session (Some k) f xs) =
           splice1 (nat (findIndex xs k)) xs"
  using assms
proof (induction xs)
  case Nil
  then show ?case by simp
next
  case (Cons s xs)
  show ?case
  proof (cases "sess_id s = k")
    case True
    then show ?thesis by simp
  next
    case False
    with Cons.prems have ne: "findIndex xs k \<noteq> - 1" by (auto simp: Let_def split: if_splits)
    from findIndex_present [OF ne] have "0 \<le> findIndex xs k" by simp
    then have n: "nat (findIndex xs k + 1) = Suc (nat (findIndex xs k))" by simp
    have idx: "findIndex (s # xs) k = findIndex xs k + 1" using False ne by (simp add: Let_def)
    show ?thesis unfolding idx n using False Cons.IH [OF ne] by simp
  qed
qed

lemma update_session_len [simp]: "length (update_session k f xs) = length xs"
  by (induction xs) auto

lemma resume_teardown_whole:
  assumes "closeSession_begin sid a = Some p"
  shows "resume_teardown ack sid p \<lparr>app = a, removed = rs\<rparr> =
           \<lparr>app = torn_down ack sid a, removed = rs @ [torn (snd p)]\<rparr>"
proof -
  let ?i = "findIndex (sessions a) sid"
  let ?s = "sessions a ! nat ?i"
  have ne: "?i \<noteq> - 1" and p: "p = (?i, ?s)"
    using assms by (auto simp: closeSession_begin_def Let_def split: if_splits)
  from findIndex_present [OF ne]
  have il: "nat ?i < length (sessions a)" and sid: "sess_id ?s = sid" by simp_all
  have f: "find_session (Some sid) (sessions a) = Some ?s" using ne by (rule find_session_at_index)
  note u = update_session_at_index [OF ne, of torn]
  have c: "captured_object ?s \<lparr>app = a, removed = rs\<rparr> = ?s"
    by (simp add: captured_object_def sid f)
  show ?thesis
    unfolding resume_teardown_def p
    by (simp add: Let_def c sid f u il torn_down_def teardown_calls_def)
qed

lemma closeSession_begin_None:
  "closeSession_begin sid a = None \<Longrightarrow> closeSession ack sid a = a"
  by (auto simp: closeSession_begin_def closeSession_def Let_def split: if_splits)

text \<open>
  Run with nothing in between, the two halves of \<open>closeSession\<close> are the whole
  function: the promise resolves, the state is the one \<open>closeSession\<close> gives, and the
  closed session joins the removed objects, torn down.
\<close>

lemma closeSession_split:
  assumes "closeSession_begin sid a = Some p"
  shows "closeSession_resume ack sid p \<lparr>app = a, removed = rs\<rparr> =
           (Resolved (), \<lparr>app = closeSession ack sid a, removed = rs @ [torn (snd p)]\<rparr>)"
proof -
  let ?i = "findIndex (sessions a) sid"
  have ne: "?i \<noteq> - 1" and i: "fst p = ?i"
    using assms by (auto simp: closeSession_begin_def Let_def split: if_splits)
  then have m: "sid \<in> sess_id ` set (sessions a)" by (simp add: findIndex_absent_iff)
  note t = resume_teardown_whole [OF assms, of ack rs]
  show ?thesis
  proof (cases "sessions (torn_down ack sid a) = []")
    case True
    then show ?thesis
      unfolding closeSession_resume_def t Let_def
      by (simp add: closeSession_present [OF m])
  next
    case False
    then have "nat (max 0 (?i - 1)) < length (sessions (torn_down ack sid a))"
      using next_index_in_range [OF m] by simp
    then show ?thesis
      using False
      unfolding closeSession_resume_def t Let_def i
      by (simp add: closeSession_present [OF m])
  qed
qed

lemma connect_split:
  "connect cid resp a =
     (Resolved (),
      case List.find (\<lambda>c. conn_id c = cid) (connections a) of
        None \<Rightarrow> a
      | Some c \<Rightarrow> connect_resume c resp (connect_begin cid a))"
  by (simp add: connect_def connect_begin_def connect_resume_def Let_def
        split: option.splits response.splits)


section \<open>C3: overlapping calls of closeSession\<close>

text \<open>
  Claim C3 on the code. The invariant holds along sequences of whole operations
  (\<open>view_invariant\<close> above), but \<open>closeSession\<close> uses the index it captured before its
  await for the \<open>splice\<close> after it, and two calls can overlap. With tabs \<open>[A, B, C]\<close>
  and \<open>A\<close> active, where \<open>term-A\<close> is the one container displayed, let \<open>closeSession(A)\<close>
  be called by the user and again by the \<open>ssh-close\<close> event for \<open>A\<close> before the first
  call has resumed: both capture index 0. The first continuation removes \<open>A\<close> and
  activates \<open>B\<close>. The second splices index 0 again, where \<open>B\<close> now is: \<open>B\<close> leaves
  \<open>sessions\<close> with its terminal alive and its container in the document, and the switch
  to \<open>C\<close> finds no old session to hide. In the end \<open>sessions\<close> is \<open>[C]\<close>,
  \<open>currentSessionId\<close> is \<open>C\<close>, and the two containers \<open>term-C\<close> and \<open>term-B\<close> are
  displayed.
\<close>

theorem overlapping_close_two_displayed:
  "map sess_id (sessions (switchSession ''A'' example_abc)) = [''A'', ''B'', ''C''] \<and>
   currentSessionId (switchSession ''A'' example_abc) = Some ''A'' \<and>
   displayed \<lparr>app = switchSession ''A'' example_abc, removed = []\<rparr> = [''term-A''] \<and>
   map_option fst (closeSession_begin ''A'' (switchSession ''A'' example_abc)) = Some 0 \<and>
   map sess_id (sessions (app example_overlap)) = [''C''] \<and>
   currentSessionId (app example_overlap) = Some ''C'' \<and>
   displayed example_overlap = [''term-C'', ''term-B''] \<and>
   map (\<lambda>s. (sess_id s, terminal (terminalManager s), mounted (container s)))
     (removed example_overlap) = [(''A'', False, False), (''B'', True, True)]"
  by code_simp


section \<open>C5: switching away from a session and back\<close>

lemma find_session_other_update:
  assumes "k \<noteq> Some x" and "\<And>s. sess_id (f s) = sess_id s"
  shows "find_session (Some x) (update_session k f xs) = find_session (Some x) xs"
proof -
  have "Some x \<noteq> k" using assms(1) by auto
  then show ?thesis using find_session_update [of f "Some x" k xs] assms(2) by simp
qed

lemma switchSession_deactivates:
  assumes cur: "currentSessionId a = Some x"
    and sx: "find_session (Some x) (sessions a) = Some s"
    and y: "y \<in> sess_id ` set (sessions a)" and ne: "x \<noteq> y"
  shows "find_session (Some x) (sessions (switchSession y a)) = Some (saved (fileManager a) s)"
proof -
  have "Some x \<noteq> Some y" using ne by simp
  then show ?thesis
    unfolding switchSession_sessions [OF y] switched_sessions_def cur
    by (simp add: find_session_update sx)
qed

lemma snapshot_switch:
  assumes "currentSessionId a \<noteq> Some x" and "currentSessionId (switchSession z a) \<noteq> Some x"
  shows "find_session (Some x) (sessions (switchSession z a)) = find_session (Some x) (sessions a)"
proof (cases "z \<in> sess_id ` set (sessions a)")
  case False
  then have "find_session (Some z) (sessions a) = None" by (auto simp: find_session_None_iff)
  then show ?thesis by (simp add: switchSession_def)
next
  case True
  then have "Some z \<noteq> Some x" using assms(2) by (simp add: switchSession_pointer)
  then show ?thesis
    unfolding switchSession_sessions [OF True] switched_sessions_def
    using assms(1) by (simp add: find_session_other_update)
qed

lemma find_session_splice:
  assumes "length xs \<le> n \<or> sess_id (xs ! n) \<noteq> x"
  shows "find_session (Some x) (splice1 n xs) = find_session (Some x) xs"
  using assms
proof (induction xs arbitrary: n)
  case Nil
  show ?case by simp
next
  case (Cons s xs)
  show ?case
  proof (cases n)
    case 0
    with Cons.prems show ?thesis by (simp add: find_session_def)
  next
    case (Suc m)
    with Cons.prems have "length xs \<le> m \<or> sess_id (xs ! m) \<noteq> x" by simp
    from Cons.IH [OF this] Suc show ?thesis by (simp add: find_session_def)
  qed
qed

lemma find_session_append:
  "find_session k xs = Some r \<Longrightarrow> find_session k (xs @ ys) = Some r"
  by (induction xs) (auto simp: find_session_def)

lemma torn_fields [simp]:
  "sess_id (torn r) = sess_id r" "fileManagerState (torn r) = fileManagerState r"
  by (simp_all add: torn_def)

lemma snapshot_torn:
  "map_option fileManagerState (find_session (Some x) (update_session k torn xs)) =
   map_option fileManagerState (find_session (Some x) xs)"
  by (simp add: find_session_update option.map_comp comp_def)

lemma addSession_pointer_sessions:
  "currentSessionId (addSession sid name a) =
     currentSessionId (switchSession sid
       (a\<lparr>sessions := sessions a @ [\<lparr>sess_id = sid, sess_name = name,
               terminalManager = snd (init sid),
               container = \<lparr>el_id = ''term-'' @ sid, style_display = Unset,
                            mounted = (terminals_container (document a) \<noteq> None)\<rparr>,
               fileManagerState = \<lparr>path = ''/'', history = [], historyIndex = None\<rparr>\<rparr>],
          calls := calls a @ fst (init sid)\<rparr>))"
  "sessions (addSession sid name a) =
     sessions (switchSession sid
       (a\<lparr>sessions := sessions a @ [\<lparr>sess_id = sid, sess_name = name,
               terminalManager = snd (init sid),
               container = \<lparr>el_id = ''term-'' @ sid, style_display = Unset,
                            mounted = (terminals_container (document a) \<noteq> None)\<rparr>,
               fileManagerState = \<lparr>path = ''/'', history = [], historyIndex = None\<rparr>\<rparr>],
          calls := calls a @ fst (init sid)\<rparr>))"
  by (simp_all add: addSession_eq Let_def loadInitialFiles_def)

lemma snapshot_addSession:
  assumes "currentSessionId a \<noteq> Some x"
    and "currentSessionId (addSession sid name a) \<noteq> Some x"
    and "find_session (Some x) (sessions a) = Some r"
  shows "find_session (Some x) (sessions (addSession sid name a)) = Some r"
proof -
  let ?s = "\<lparr>sess_id = sid, sess_name = name, terminalManager = snd (init sid),
             container = \<lparr>el_id = ''term-'' @ sid, style_display = Unset,
                          mounted = (terminals_container (document a) \<noteq> None)\<rparr>,
             fileManagerState = \<lparr>path = ''/'', history = [], historyIndex = None\<rparr>\<rparr>"
  let ?a1 = "a\<lparr>sessions := sessions a @ [?s], calls := calls a @ fst (init sid)\<rparr>"
  have p1: "currentSessionId ?a1 \<noteq> Some x" using assms(1) by simp
  have p2: "currentSessionId (switchSession sid ?a1) \<noteq> Some x"
    using assms(2) unfolding addSession_pointer_sessions(1) .
  have "find_session (Some x) (sessions (switchSession sid ?a1)) =
          find_session (Some x) (sessions ?a1)"
    using p1 p2 by (rule snapshot_switch)
  also have "\<dots> = Some r" using find_session_append [OF assms(3)] by simp
  finally show ?thesis unfolding addSession_pointer_sessions(2) .
qed

lemma connect_begin_fields [simp]:
  "sessions (connect_begin cid a) = sessions a"
  "currentSessionId (connect_begin cid a) = currentSessionId a"
  by (simp_all add: connect_begin_def hideModal_def Let_def split: option.splits)

lemma snapshot_connect_resume:
  assumes "currentSessionId a \<noteq> Some x"
    and "currentSessionId (connect_resume c r a) \<noteq> Some x"
    and "find_session (Some x) (sessions a) = Some s"
  shows "find_session (Some x) (sessions (connect_resume c r a)) = Some s"
proof (cases r)
  case (Rejected e)
  then show ?thesis using assms(3) by (simp add: connect_resume_def Let_def)
next
  case (Resolved sid)
  let ?n = "if conn_name c \<noteq> [] then conn_name c else conn_host c"
  let ?b = "setStatus ''connected'' (''Connected to '' @ conn_host c) a"
  have e: "connect_resume c r a = addSession sid ?n ?b"
    using Resolved by (simp add: connect_resume_def)
  have 1: "currentSessionId ?b \<noteq> Some x" using assms(1) by simp
  have 2: "currentSessionId (addSession sid ?n ?b) \<noteq> Some x" using assms(2) unfolding e .
  have 3: "find_session (Some x) (sessions ?b) = Some s" using assms(3) by simp
  show ?thesis unfolding e using 1 2 3 by (rule snapshot_addSession)
qed

lemma resume_teardown_pointer [simp]:
  "currentSessionId (app (resume_teardown ack sid p w)) = currentSessionId (app w)"
  by (simp add: resume_teardown_def Let_def)

lemma snapshot_resume_teardown:
  assumes "length (sessions (app w)) \<le> nat (fst p) \<or> sess_id (sessions (app w) ! nat (fst p)) \<noteq> x"
  shows "map_option fileManagerState
           (find_session (Some x) (sessions (app (resume_teardown ack sid p w)))) =
         map_option fileManagerState (find_session (Some x) (sessions (app w)))"
proof -
  let ?k = "Some (sess_id (snd p))"
  let ?xs = "if find_session ?k (sessions (app w)) \<noteq> None
             then update_session ?k torn (sessions (app w)) else sessions (app w)"
  have s: "sessions (app (resume_teardown ack sid p w)) = splice1 (nat (fst p)) ?xs"
    by (simp add: resume_teardown_def Let_def)
  have ids: "map sess_id ?xs = map sess_id (sessions (app w))"
    by (simp add: update_session_ids)
  have len: "length ?xs = length (sessions (app w))" by simp
  have "length ?xs \<le> nat (fst p) \<or> sess_id (?xs ! nat (fst p)) \<noteq> x"
  proof (cases "length (sessions (app w)) \<le> nat (fst p)")
    case True
    then show ?thesis using len by simp
  next
    case False
    then have lt: "nat (fst p) < length (sessions (app w))" by simp
    then have "sess_id (?xs ! nat (fst p)) = map sess_id ?xs ! nat (fst p)"
      using len by (metis nth_map)
    also have "\<dots> = sess_id (sessions (app w) ! nat (fst p))"
      unfolding ids using lt by simp
    finally show ?thesis using assms False by simp
  qed
  then have "find_session (Some x) (splice1 (nat (fst p)) ?xs) = find_session (Some x) ?xs"
    by (rule find_session_splice)
  then show ?thesis unfolding s by (simp add: snapshot_torn)
qed

lemma snapshot_close_resume:
  assumes k: "length (sessions (app w)) \<le> nat (fst p) \<or>
              sess_id (sessions (app w) ! nat (fst p)) \<noteq> x"
    and c: "currentSessionId (app w) \<noteq> Some x"
    and c': "currentSessionId (app (snd (closeSession_resume ack sid p w))) \<noteq> Some x"
    and f: "map_option fileManagerState (find_session (Some x) (sessions (app w))) = Some st"
  shows "map_option fileManagerState
           (find_session (Some x) (sessions (app (snd (closeSession_resume ack sid p w))))) =
         Some st"
proof -
  let ?w3 = "resume_teardown ack sid p w"
  let ?j = "nat (max 0 (fst p - 1))"
  have t: "map_option fileManagerState (find_session (Some x) (sessions (app ?w3))) = Some st"
    using snapshot_resume_teardown [OF k] f by simp
  then have ne: "sessions (app ?w3) \<noteq> []" by (auto simp: find_session_def)
  show ?thesis
  proof (cases "?j < length (sessions (app ?w3))")
    case False
    then have "snd (closeSession_resume ack sid p w) = ?w3"
      using ne by (simp add: closeSession_resume_def Let_def)
    then show ?thesis using t by simp
  next
    case True
    let ?z = "sess_id (sessions (app ?w3) ! ?j)"
    have e: "app (snd (closeSession_resume ack sid p w)) = switchSession ?z (app ?w3)"
      using ne True by (simp add: closeSession_resume_def Let_def)
    have 1: "currentSessionId (app ?w3) \<noteq> Some x" using c by simp
    have 2: "currentSessionId (switchSession ?z (app ?w3)) \<noteq> Some x" using c' unfolding e .
    show ?thesis unfolding e snapshot_switch [OF 1 2] by (rule t)
  qed
qed

lemma snapshot_home:
  assumes c: "currentSessionId a \<noteq> Some x"
    and f: "map_option fileManagerState (find_session (Some x) (sessions a)) = Some st"
  shows "map_option fileManagerState
           (find_session (Some x) (sessions (loadInitialFiles_resume k r a))) =
         Some (st\<lparr>path := new_path x (Home_resolved k r) (path st)\<rparr>)"
proof (cases r)
  case (Rejected e)
  then show ?thesis using f by (simp add: loadInitialFiles_resume_def Let_def)
next
  case (Resolved h)
  show ?thesis
  proof (cases "currentSessionId a = Some k")
    case True
    then have "k \<noteq> x" using c by auto
    then show ?thesis using f True Resolved by (simp add: loadInitialFiles_resume_def)
  next
    case False
    obtain s where s: "find_session (Some x) (sessions a) = Some s" "fileManagerState s = st"
      using f by auto
    show ?thesis
    proof (cases "k = x")
      case True
      then show ?thesis using False Resolved s
        by (simp add: loadInitialFiles_resume_def find_session_update)
    next
      case kx: False
      then have "Some x \<noteq> Some k" by simp
      then show ?thesis using False Resolved s kx
        by (simp add: loadInitialFiles_resume_def find_session_update)
    qed
  qed
qed

lemma listeners_sessions [simp]:
  "sessions (loadDirectory_resume q l a) = sessions a"
  "sessions (on_ssh_data k d a) = sessions a"
  "sessions (on_ssh_error k e a) = sessions a"
  by (simp_all add: loadDirectory_resume_def on_ssh_data_def on_ssh_error_def
        split: response.splits option.splits)

lemma path_update_same [simp]: "st\<lparr>path := path st\<rparr> = (st :: FmState)"
  by simp

lemma snapshot_event:
  assumes k: "keeps_record x e w"
    and c: "currentSessionId (app w) \<noteq> Some x"
    and c': "currentSessionId (app (apply_event e w)) \<noteq> Some x"
    and f: "map_option fileManagerState (find_session (Some x) (sessions (app w))) = Some st"
  shows "map_option fileManagerState (find_session (Some x) (sessions (app (apply_event e w)))) =
           Some (st\<lparr>path := new_path x e (path st)\<rparr>)"
proof (cases e)
  case (Switch z)
  have "currentSessionId (switchSession z (app w)) \<noteq> Some x" using c' Switch by simp
  from snapshot_switch [OF c this] show ?thesis using f Switch by simp
next
  case (Connect_begin cid)
  then show ?thesis using f by simp
next
  case (Connect_resume cn r)
  obtain s where s: "find_session (Some x) (sessions (app w)) = Some s" "fileManagerState s = st"
    using f by auto
  have "currentSessionId (connect_resume cn r (app w)) \<noteq> Some x" using c' Connect_resume by simp
  from snapshot_connect_resume [OF c this s(1)] show ?thesis using s(2) Connect_resume by simp
next
  case (Close_resume ack sid i s)
  have 1: "length (sessions (app w)) \<le> nat (fst (i, s)) \<or>
           sess_id (sessions (app w) ! nat (fst (i, s))) \<noteq> x"
    using k Close_resume by simp
  have 2: "currentSessionId (app (snd (closeSession_resume ack sid (i, s) w))) \<noteq> Some x"
    using c' Close_resume by simp
  from snapshot_close_resume [OF 1 c 2 f] show ?thesis using Close_resume by simp
next
  case (Home_resolved h r)
  from snapshot_home [OF c f, of h r] show ?thesis using Home_resolved by simp
next
  case (Listing q l)
  then show ?thesis using f by simp
next
  case (Ssh_data h d)
  then show ?thesis using f by simp
next
  case (Ssh_error h m)
  then show ?thesis using f by simp
next
  case (Browsing fm cs)
  then show ?thesis using f by simp
qed

lemma snapshot_run:
  assumes "kept_inactive x evs w"
    and "currentSessionId (app w) \<noteq> Some x"
    and "map_option fileManagerState (find_session (Some x) (sessions (app w))) = Some st"
  shows "currentSessionId (app (run_events evs w)) \<noteq> Some x \<and>
         map_option fileManagerState
           (find_session (Some x) (sessions (app (run_events evs w)))) =
           Some (st\<lparr>path := stored_path x evs (path st)\<rparr>)"
  using assms
proof (induction evs arbitrary: w st)
  case Nil
  then show ?case by simp
next
  case (Cons e es)
  have k: "keeps_record x e w" and c': "currentSessionId (app (apply_event e w)) \<noteq> Some x"
    and r: "kept_inactive x es (apply_event e w)"
    using Cons.prems(1) by simp_all
  have f: "map_option fileManagerState
             (find_session (Some x) (sessions (app (apply_event e w)))) =
           Some (st\<lparr>path := new_path x e (path st)\<rparr>)"
    using k Cons.prems(2) c' Cons.prems(3) by (rule snapshot_event)
  from Cons.IH [OF r c' f] show ?case by simp
qed

lemma focus_not_fetch:
  "filter is_fetch (if terminal tm then Terminal_focus (tm_sessionId tm) # fit tm else []) = []"
  by (simp add: fit_def)

lemma switch_back:
  assumes x: "x \<noteq> []"
    and c: "currentSessionId b \<noteq> Some x"
    and f: "map_option fileManagerState (find_session (Some x) (sessions b)) = Some st"
  shows "currentPath (fileManager (switchSession x b)) = (if path st = [] then ''/'' else path st)"
    and "fm_history (fileManager (switchSession x b)) = history st"
    and "fm_historyIndex (fileManager (switchSession x b)) =
           (case historyIndex st of Some n \<Rightarrow> n | None \<Rightarrow> - 1)"
    and "filter is_fetch (drop (length (calls b)) (calls (switchSession x b))) =
           [Invoke_sftp_list (if path st = [] then ''/'' else path st)]"
proof -
  obtain s where s: "find_session (Some x) (sessions b) = Some s" "fileManagerState s = st"
    using f by auto
  have id: "sess_id s = x" using s(1) by (auto dest: find_session_Some_id)
  have snap: "fileManagerState (new_session b s) = st"
    using c s(2) id by (simp add: new_session_snapshot)
  show 1: "currentPath (fileManager (switchSession x b)) =
             (if path st = [] then ''/'' else path st)"
    unfolding switchSession_browser(1) [OF s(1)] snap ..
  show "fm_history (fileManager (switchSession x b)) = history st"
    unfolding switchSession_browser(2) [OF s(1)] snap ..
  show "fm_historyIndex (fileManager (switchSession x b)) =
           (case historyIndex st of Some n \<Rightarrow> n | None \<Rightarrow> - 1)"
    unfolding switchSession_browser(3) [OF s(1)] snap ..
  show "filter is_fetch (drop (length (calls b)) (calls (switchSession x b))) =
           [Invoke_sftp_list (if path st = [] then ''/'' else path st)]"
    unfolding switchSession_calls [OF s(1)] 1 using x by (simp add: focus_not_fetch)
qed

lemma stored_path_unchanged:
  assumes "\<And>h. Home_resolved x (Resolved h) \<notin> set evs"
  shows "stored_path x evs p = p"
  using assms
proof (induction evs arbitrary: p)
  case Nil
  show ?case by simp
next
  case (Cons e es)
  have "new_path x e p = p"
  proof (cases e)
    case (Home_resolved k r)
    then show ?thesis using Cons.prems [of "case r of Resolved h \<Rightarrow> h | Rejected m \<Rightarrow> []"]
      by (cases r) auto
  qed simp_all
  moreover have "stored_path x es p = p" using Cons.prems by (intro Cons.IH) auto
  ultimately show ?case by simp
qed

lemma stored_path_last_home:
  "stored_path x (evs @ Home_resolved x (Resolved h) # evs') p = stored_path x evs' h"
  by (induction evs arbitrary: p) simp_all

text \<open>
  Claim C5, as the code has it. Let \<open>x\<close> be the active session, with an id that is not
  the empty string, and \<open>y\<close> another session of the registry. \<open>switchSession(y)\<close> stores
  the directory browser's state (path, history, history index) as the
  \<open>fileManagerState\<close> of \<open>x\<close>. Let any run \<open>evs\<close> of handlers and continuations follow
  that keeps \<open>x\<close> in the registry and inactive. After it the state stored for \<open>x\<close> is the
  captured one, except that its path is \<open>stored_path x evs\<close> of the captured path: the
  home directory of \<open>x\<close> that the backend resolved last during the run, if it resolved
  one, and the captured path otherwise. A \<open>switchSession(x)\<close> then makes \<open>x\<close> active
  and puts the captured history and history index back into the browser, and as its path
  the stored path, or \<open>'/'\<close> when the stored path is the empty string; among the calls it
  makes, exactly one is a directory fetch, at that path. The snapshot has no field for a
  listing, so none is reused.
\<close>

theorem switch_away_and_later_back:
  assumes "x \<noteq> []" and "currentSessionId a = Some x"
    and "x \<in> sess_id ` set (sessions a)" and "y \<in> sess_id ` set (sessions a)"
    and "x \<noteq> y"
    and "kept_inactive x evs \<lparr>app = switchSession y a, removed = rs\<rparr>"
  shows "map_option fileManagerState (find_session (Some x) (sessions (switchSession y a))) =
           Some (getState (fileManager a)) \<and>
         map_option fileManagerState
           (find_session (Some x)
              (sessions (app (run_events evs \<lparr>app = switchSession y a, removed = rs\<rparr>)))) =
           Some ((getState (fileManager a))
                   \<lparr>path := stored_path x evs (currentPath (fileManager a))\<rparr>) \<and>
         currentSessionId
           (switchSession x (app (run_events evs \<lparr>app = switchSession y a, removed = rs\<rparr>))) =
           Some x \<and>
         currentPath (fileManager
           (switchSession x (app (run_events evs \<lparr>app = switchSession y a, removed = rs\<rparr>)))) =
           (if stored_path x evs (currentPath (fileManager a)) = [] then ''/''
            else stored_path x evs (currentPath (fileManager a))) \<and>
         fm_history (fileManager
           (switchSession x (app (run_events evs \<lparr>app = switchSession y a, removed = rs\<rparr>)))) =
           fm_history (fileManager a) \<and>
         fm_historyIndex (fileManager
           (switchSession x (app (run_events evs \<lparr>app = switchSession y a, removed = rs\<rparr>)))) =
           fm_historyIndex (fileManager a) \<and>
         filter is_fetch
           (drop (length (calls (app (run_events evs \<lparr>app = switchSession y a, removed = rs\<rparr>))))
             (calls (switchSession x
                (app (run_events evs \<lparr>app = switchSession y a, removed = rs\<rparr>))))) =
           [Invoke_sftp_list
              (if stored_path x evs (currentPath (fileManager a)) = [] then ''/''
               else stored_path x evs (currentPath (fileManager a)))]"
proof -
  let ?w0 = "\<lparr>app = switchSession y a, removed = rs\<rparr>"
  let ?b = "app (run_events evs ?w0)"
  let ?q = "stored_path x evs (currentPath (fileManager a))"
  let ?st = "(getState (fileManager a))\<lparr>path := ?q\<rparr>"
  obtain s where s: "find_session (Some x) (sessions a) = Some s"
    using assms(3) find_session_present by blast
  have "find_session (Some x) (sessions (switchSession y a)) = Some (saved (fileManager a) s)"
    using assms(2) s assms(4,5) by (rule switchSession_deactivates)
  then have 1: "map_option fileManagerState
                  (find_session (Some x) (sessions (switchSession y a))) =
                Some (getState (fileManager a))"
    by (simp add: saved_def)
  have c0: "currentSessionId (app ?w0) \<noteq> Some x"
    using switchSession_pointer [OF assms(4)] assms(5) by simp
  have f0: "map_option fileManagerState (find_session (Some x) (sessions (app ?w0))) =
              Some (getState (fileManager a))"
    using 1 by simp
  have p: "path (getState (fileManager a)) = currentPath (fileManager a)"
    by (simp add: getState_def)
  from snapshot_run [OF assms(6) c0 f0]
  have c: "currentSessionId ?b \<noteq> Some x"
    and 2: "map_option fileManagerState (find_session (Some x) (sessions ?b)) = Some ?st"
    unfolding p by blast+
  have "find_session (Some x) (sessions ?b) \<noteq> None" using 2 by auto
  then have "x \<in> sess_id ` set (sessions ?b)" by (auto simp: find_session_None_iff)
  then have 3: "currentSessionId (switchSession x ?b) = Some x" by (rule switchSession_pointer)
  have q: "path ?st = ?q" by simp
  have h: "history ?st = fm_history (fileManager a)"
    "(case historyIndex ?st of Some n \<Rightarrow> n | None \<Rightarrow> - 1) = fm_historyIndex (fileManager a)"
    by (simp_all add: getState_def)
  note sb = switch_back [OF assms(1) c 2, unfolded q h]
  from 1 2 3 sb(1) sb(2) sb(3) sb(4) show ?thesis by (intro conjI)
qed


theorem switch_away_and_later_back_witness:
  "currentSessionId example_browsing = Some ''A'' \<and>
   ''A'' \<in> sess_id ` set (sessions example_browsing) \<and>
   ''B'' \<in> sess_id ` set (sessions example_browsing) \<and>
   kept_inactive ''A'' example_run \<lparr>app = switchSession ''B'' example_browsing, removed = []\<rparr> \<and>
   currentPath (fileManager example_browsing) = ''/srv/www'' \<and>
   stored_path ''A'' example_run ''/srv/www'' = ''/home/u'' \<and>
   map_option fileManagerState
     (find_session (Some ''A'') (sessions (switchSession ''B'' example_browsing))) =
     Some (getState (fileManager example_browsing)) \<and>
   map sess_id
     (sessions (app (run_events example_run
        \<lparr>app = switchSession ''B'' example_browsing, removed = []\<rparr>))) = [''A'', ''B''] \<and>
   currentSessionId
     (switchSession ''A'' (app (run_events example_run
        \<lparr>app = switchSession ''B'' example_browsing, removed = []\<rparr>))) = Some ''A'' \<and>
   currentPath (fileManager
     (switchSession ''A'' (app (run_events example_run
        \<lparr>app = switchSession ''B'' example_browsing, removed = []\<rparr>)))) = ''/home/u'' \<and>
   fm_history (fileManager
     (switchSession ''A'' (app (run_events example_run
        \<lparr>app = switchSession ''B'' example_browsing, removed = []\<rparr>)))) =
     fm_history (fileManager example_browsing) \<and>
   filter is_fetch
     (drop (length (calls (app (run_events example_run
              \<lparr>app = switchSession ''B'' example_browsing, removed = []\<rparr>))))
        (calls (switchSession ''A'' (app (run_events example_run
              \<lparr>app = switchSession ''B'' example_browsing, removed = []\<rparr>))))) =
     [Invoke_sftp_list ''/home/u'']"
proof -
  let ?w0 = "\<lparr>app = switchSession ''B'' example_browsing, removed = []\<rparr>"
  have x: "''A'' \<noteq> []" by simp
  have c: "currentSessionId example_browsing = Some ''A''" by code_simp
  have ma: "''A'' \<in> sess_id ` set (sessions example_browsing)" by code_simp
  have mb: "''B'' \<in> sess_id ` set (sessions example_browsing)" by code_simp
  have ne: "''A'' \<noteq> ''B''" by simp
  have k: "kept_inactive ''A'' example_run ?w0" by code_simp
  have p: "currentPath (fileManager example_browsing) = ''/srv/www''" by code_simp
  have sp: "stored_path ''A'' example_run ''/srv/www'' = ''/home/u''" by code_simp
  have ids: "map sess_id (sessions (app (run_events example_run ?w0))) = [''A'', ''B'']"
    by code_simp
  have i: "(if ''/home/u'' = [] then ''/'' else ''/home/u'') = ''/home/u''" by simp
  note t = switch_away_and_later_back [OF x c ma mb ne k, unfolded p sp i]
  from t have 1: "map_option fileManagerState
     (find_session (Some ''A'') (sessions (switchSession ''B'' example_browsing))) =
     Some (getState (fileManager example_browsing))"
    by (rule conjunct1)
  from t have 3: "currentSessionId (switchSession ''A'' (app (run_events example_run ?w0))) =
     Some ''A''"
    by blast
  from t have 4: "currentPath (fileManager
     (switchSession ''A'' (app (run_events example_run ?w0)))) = ''/home/u''"
    by blast
  from t have 5: "fm_history (fileManager
     (switchSession ''A'' (app (run_events example_run ?w0)))) =
     fm_history (fileManager example_browsing)"
    by blast
  from t have 6: "filter is_fetch
     (drop (length (calls (app (run_events example_run ?w0))))
        (calls (switchSession ''A'' (app (run_events example_run ?w0))))) =
     [Invoke_sftp_list ''/home/u'']"
    by blast
  from c ma mb k p sp 1 ids 3 4 5 6 show ?thesis by (intro conjI)
qed

text \<open>
  The claim as stated fails in two ways. In \<open>example_browsing\<close> the request for the home
  directory of \<open>A\<close> is still outstanding: when it is answered while \<open>B\<close> is active
  (\<open>loadInitialFiles\<close>, lines 297-300), the path stored for \<open>A\<close> is overwritten, and
  the switch back restores and fetches \<open>/home/u\<close>, not the captured \<open>/srv/www\<close>. And
  where the captured path is the empty string, \<open>setState\<close> restores and fetches \<open>'/'\<close>.
\<close>

theorem switch_away_and_later_back_counterexample:
  "currentSessionId example_browsing = Some ''A'' \<and>
   currentPath (fileManager example_browsing) = ''/srv/www'' \<and>
   filter (\<lambda>c. c = Invoke_sftp_get_home ''A'') (calls example_browsing) =
     [Invoke_sftp_get_home ''A''] \<and>
   map_option (path \<circ> fileManagerState)
     (find_session (Some ''A'') (sessions (switchSession ''B'' example_browsing))) =
     Some ''/srv/www'' \<and>
   currentSessionId
     (loadInitialFiles_resume ''A'' (Resolved ''/home/u'') (switchSession ''B'' example_browsing)) =
     Some ''B'' \<and>
   currentPath (fileManager
     (switchSession ''A''
       (loadInitialFiles_resume ''A'' (Resolved ''/home/u'')
         (switchSession ''B'' example_browsing)))) = ''/home/u'' \<and>
   filter is_fetch
     (drop (length (calls (loadInitialFiles_resume ''A'' (Resolved ''/home/u'')
                            (switchSession ''B'' example_browsing))))
        (calls (switchSession ''A''
                 (loadInitialFiles_resume ''A'' (Resolved ''/home/u'')
                   (switchSession ''B'' example_browsing))))) =
     [Invoke_sftp_list ''/home/u''] \<and>
   currentSessionId example_empty_path = Some ''A'' \<and>
   currentPath (fileManager example_empty_path) = [] \<and>
   map_option (path \<circ> fileManagerState)
     (find_session (Some ''A'') (sessions (switchSession ''B'' example_empty_path))) = Some [] \<and>
   currentPath (fileManager (switchSession ''A'' (switchSession ''B'' example_empty_path))) = ''/'' \<and>
   filter is_fetch
     (drop (length (calls (switchSession ''B'' example_empty_path)))
        (calls (switchSession ''A'' (switchSession ''B'' example_empty_path)))) =
     [Invoke_sftp_list ''/'']"
  by code_simp

end
